theory Spec2Isabelle
  imports Complex_Main
begin

section \<open>Pongverse: the learning core\<close>

text \<open>
  A shallow embedding of \<^verbatim>\<open>src/ai/dqn_agent.py\<close> (prioritized replay buffer, value
  network, Double-DQN agent) and of the tabular agent of \<^verbatim>\<open>src/pong_ai.py\<close>.

  Conventions of the embedding:
  \<^item> Python floats and float32 tensors are real numbers; a result that numpy would
    report as \<^verbatim>\<open>nan\<close> or \<^verbatim>\<open>inf\<close> is \<open>None\<close> where the source can produce it.
  \<^item> Exceptions are values of type \<open>error\<close>; a method that mutates \<^verbatim>\<open>self\<close> before it
    raises returns the object as it stands at the raise together with the exception.
  \<^item> Random draws are arguments: the outcome of \<^verbatim>\<open>random.random()\<close>, the raw draw behind
    \<^verbatim>\<open>random.randrange\<close>, and the uniform variates consumed by \<^verbatim>\<open>np.random.choice\<close>.
  \<^item> Tensors keep their shapes: a tensor of shape \<open>[B]\<close> is a list, one of shape
    \<open>[B, 1]\<close> is a column (a list, one entry per row), one of shape \<open>[B, B]\<close> is a list of rows;
    the broadcasting between them is written out.
  \<^item> Names are resolved as Python resolves them. The module has two statements
    \<^verbatim>\<open>class DQNAgent\<close>; the second (with \<^verbatim>\<open>__init__\<close> and \<^verbatim>\<open>optimize_model\<close> only, under the
    comment \<^verbatim>\<open># ... (rest of the class unchanged)\<close>) rebinds the name and inherits nothing, so
    the agent that the module exports has no other method and calling one raises
    \<^verbatim>\<open>AttributeError\<close>. The module binds no name \<^verbatim>\<open>F\<close>, so evaluating
    \<^verbatim>\<open>F.smooth_l1_loss\<close> raises \<^verbatim>\<open>NameError\<close>. The bodies of the methods of the first statement
    are embedded under names ending in \<open>_body\<close>.
\<close>

subsection \<open>Exceptions and n-dimensional arrays\<close>

datatype error =
    ValueError string
  | IndexError string
  | KeyError string
  | ZeroDivisionError
  | RuntimeError string
  | TypeError string
  | FileNotFoundError string
  | UnpicklingError string
  | NameError string
  | AttributeError string

text \<open>A numpy array: a scalar or a sequence of sub-arrays.\<close>

datatype nd = Sc real | Ar "nd list"

text \<open>Python and numpy indexing: an index \<open>i\<close> with \<open>-n \<le> i < 0\<close> counts from the end.\<close>

definition norm_index :: "nat \<Rightarrow> int \<Rightarrow> nat option" where
  "norm_index n i =
     (if 0 \<le> i \<and> i < int n then Some (nat i)
      else if - int n \<le> i \<and> i < 0 then Some (nat (int n + i))
      else None)"

text \<open>
  Storing an array into a single slot of a float array: numpy accepts a scalar or an array
  with exactly one element, and raises \<^verbatim>\<open>ValueError\<close> (setting an array element with a
  sequence) otherwise.
\<close>

fun as_scalar :: "nd \<Rightarrow> real option" where
  "as_scalar (Sc x) = Some x"
| "as_scalar (Ar [v]) = as_scalar v"
| "as_scalar (Ar vs) = None"

subsection \<open>Names of the module\<close>

text \<open>
  The global names of \<^verbatim>\<open>dqn_agent.py\<close>: those bound by its import statements (lines 11 to
  20), its assignments and its class statements. A name that is neither among them nor a
  builtin raises \<^verbatim>\<open>NameError\<close> when it is evaluated.
\<close>

definition module_globals :: "string list" where
  "module_globals =
     [''Tuple'', ''List'', ''Optional'', ''Dict'', ''np'', ''torch'', ''nn'', ''optim'',
      ''dataclass'', ''namedtuple'', ''random'', ''logging'', ''SummaryWriter'', ''logger'',
      ''Transition'', ''State'', ''Action'', ''DQNConfig'', ''PrioritizedReplayBuffer'',
      ''DQNetwork'', ''DQNAgent'']"

definition lookup_global :: "string \<Rightarrow> error + unit" where
  "lookup_global name =
     (if name \<in> set module_globals then Inr () else Inl (NameError name))"

text \<open>
  The methods that the two statements \<^verbatim>\<open>class DQNAgent\<close> define, in the order of the
  module (lines 109 and 235). The name \<^verbatim>\<open>DQNAgent\<close> is bound to the class of the last
  statement, which has no base class: these are the methods of an agent.
\<close>

definition DQNAgent_statements :: "string list list" where
  "DQNAgent_statements =
     [[''__init__'', ''select_action'', ''optimize_model'', ''save_model'', ''load_model''],
      [''__init__'', ''optimize_model'']]"

definition DQNAgent_methods :: "string list" where
  "DQNAgent_methods = last DQNAgent_statements"

subsection \<open>Transitions and the prioritized replay buffer\<close>

record Transition =
  state :: "real list"
  action :: int
  reward :: real
  next_state :: "real list"
  done_t :: bool

record PrioritizedReplayBuffer =
  capacity :: nat
  alpha :: real
  priorities :: "real list"
  buffer :: "Transition list"
  position :: nat

definition PrioritizedReplayBuffer_init :: "nat \<Rightarrow> real \<Rightarrow> PrioritizedReplayBuffer" where
  "PrioritizedReplayBuffer_init cap a =
     \<lparr>capacity = cap, alpha = a, priorities = replicate cap 0, buffer = [], position = 0\<rparr>"

text \<open>Python's \<^verbatim>\<open>max(iterable)\<close>: raises on an empty sequence.\<close>

fun py_max :: "real list \<Rightarrow> error + real" where
  "py_max [] = Inl (ValueError ''max() arg is an empty sequence'')"
| "py_max (x # xs) = Inr (fold max xs x)"

text \<open>
  \<^verbatim>\<open>push\<close>: the maximum is taken over the whole priority array (all \<open>capacity\<close> slots),
  the transition is appended or written at the cursor, the priority slot at the cursor is
  set, and the cursor advances modulo the capacity.
\<close>

definition push :: "Transition \<Rightarrow> PrioritizedReplayBuffer \<Rightarrow> error + PrioritizedReplayBuffer" where
  "push t b =
     (case (if buffer b \<noteq> [] then py_max (priorities b) else Inr 1) of
        Inl e \<Rightarrow> Inl e
      | Inr max_priority \<Rightarrow>
          if \<not> length (buffer b) < capacity b \<and> \<not> position b < length (buffer b)
          then Inl (IndexError ''list assignment index out of range'')
          else
            let buffer' = (if length (buffer b) < capacity b then buffer b @ [t]
                           else (buffer b)[position b := t])
            in if \<not> position b < length (priorities b)
               then Inl (IndexError ''index out of bounds'')
               else if capacity b = 0 then Inl ZeroDivisionError
               else Inr (b\<lparr>buffer := buffer',
                           priorities := (priorities b)[position b := max_priority],
                           position := (position b + 1) mod capacity b\<rparr>))"

text \<open>
  \<^verbatim>\<open>update_priorities\<close>: the loop over \<^verbatim>\<open>zip(indices, priorities)\<close>; it stops at the first
  assignment that raises, the earlier assignments staying in place.
\<close>

fun update_priorities ::
  "int list \<Rightarrow> nd list \<Rightarrow> PrioritizedReplayBuffer \<Rightarrow> error option \<times> PrioritizedReplayBuffer" where
  "update_priorities (idx # indices) (priority # prios) b =
     (case norm_index (length (priorities b)) idx of
        None \<Rightarrow> (Some (IndexError ''index out of bounds''), b)
      | Some k \<Rightarrow>
          (case as_scalar priority of
             None \<Rightarrow> (Some (ValueError ''setting an array element with a sequence''), b)
           | Some p \<Rightarrow> update_priorities indices prios (b\<lparr>priorities := (priorities b)[k := p]\<rparr>)))"
| "update_priorities indices prios b = (None, b)"

subsection \<open>Sampling\<close>

text \<open>
  numpy's \<^verbatim>\<open>x ** a\<close> on floats, over the reals: \<open>None\<close> stands for a non-finite result
  (\<^verbatim>\<open>nan\<close> for a negative base with a fractional exponent, \<^verbatim>\<open>inf\<close> for zero to a
  negative power).
\<close>

definition np_power :: "real \<Rightarrow> real \<Rightarrow> real option" where
  "np_power x a =
     (if 0 < x then Some (x powr a)
      else if x = 0 then (if 0 < a then Some 0 else if a = 0 then Some 1 else None)
      else if a = of_int \<lfloor>a\<rfloor> then Some (x powi \<lfloor>a\<rfloor>)
      else None)"

text \<open>
  \<^verbatim>\<open>probabilities /= probabilities.sum()\<close>: a non-finite entry or a zero sum leaves
  non-finite entries in the array (numpy warns and goes on).
\<close>

definition np_normalize :: "real option list \<Rightarrow> real option list" where
  "np_normalize ps =
     (if None \<in> set ps \<or> sum_list (map the ps) = 0 then map (\<lambda>p. None) ps
      else map (\<lambda>p. Some (the p / sum_list (map the ps))) ps)"

fun cumsum_from :: "real \<Rightarrow> real list \<Rightarrow> real list" where
  "cumsum_from acc [] = []"
| "cumsum_from acc (x # xs) = (acc + x) # cumsum_from (acc + x) xs"

definition cumsum :: "real list \<Rightarrow> real list" where
  "cumsum xs = cumsum_from 0 xs"

text \<open>
  \<^verbatim>\<open>cdf.searchsorted(u, side='right')\<close> on an ascending array: the number of entries
  not above \<open>u\<close>.
\<close>

definition searchsorted_right :: "real list \<Rightarrow> real \<Rightarrow> nat" where
  "searchsorted_right cdf u = length (filter (\<lambda>c. c \<le> u) cdf)"

text \<open>
  \<^verbatim>\<open>np.random.choice(n, size, p=p)\<close>, after numpy's implementation: the arguments are
  validated (every failure is a \<^verbatim>\<open>ValueError\<close>), then as many uniform variates as requested of \<open>[0, 1)\<close>
  are drawn and each is located in the normalised cumulative distribution. The variates are
  the argument \<open>us\<close>: \<open>us k\<close> is the \<open>k\<close>-th one drawn.
\<close>

definition np_random_choice ::
  "nat \<Rightarrow> int \<Rightarrow> real option list \<Rightarrow> (nat \<Rightarrow> real) \<Rightarrow> error + nat list" where
  "np_random_choice n sz p us =
     (if n = 0 \<and> sz \<noteq> 0 then Inl (ValueError ''a must be greater than 0 unless no samples are taken'')
      else if length p \<noteq> n then Inl (ValueError ''a and p must have same size'')
      else if None \<in> set p then Inl (ValueError ''probabilities contain NaN'')
      else if \<exists>x \<in> set p. the x < 0 then Inl (ValueError ''probabilities are not non-negative'')
      else if sum_list (map the p) \<noteq> 1 then Inl (ValueError ''probabilities do not sum to 1'')
      else if sz < 0 then Inl (ValueError ''negative dimensions are not allowed'')
      else
        let cdf = cumsum (map the p);
            cdf = map (\<lambda>c. c / last cdf) cdf
        in Inr (map (\<lambda>k. searchsorted_right cdf (us k)) [0..<nat sz]))"

text \<open>
  \<^verbatim>\<open>sample\<close>. The importance weights are \<^verbatim>\<open>(len(buffer) * probabilities[indices]) ** (-beta)\<close>,
  divided by their maximum; a drawn index always has a positive probability
  (lemma \<open>np_random_choice_positive\<close>), so the power is \<open>powr\<close>. \<^verbatim>\<open>weights.max()\<close> raises on
  an empty array.
\<close>

definition sample ::
  "PrioritizedReplayBuffer \<Rightarrow> int \<Rightarrow> real \<Rightarrow> (nat \<Rightarrow> real)
     \<Rightarrow> error + (Transition list \<times> nat list \<times> real list)" where
  "sample b bsz beta us =
     (if length (buffer b) = 0 then Inl (ValueError ''Cannot sample from empty buffer'')
      else
        let n = length (buffer b);
            probabilities = np_normalize (map (\<lambda>p. np_power p (alpha b)) (take n (priorities b)))
        in case np_random_choice n bsz probabilities us of
             Inl e \<Rightarrow> Inl e
           | Inr indices \<Rightarrow>
               let weights = map (\<lambda>i. (real n * the (probabilities ! i)) powr (- beta)) indices
               in if weights = []
                  then Inl (ValueError ''zero-size array to reduction operation maximum which has no identity'')
                  else if \<exists>i \<in> set indices. \<not> i < n then Inl (IndexError ''list index out of range'')
                  else Inr (map (\<lambda>i. buffer b ! i) indices, indices,
                            map (\<lambda>w. w / Max (set weights)) weights))"

subsection \<open>Configuration and the value network\<close>

record DQNConfig =
  state_dim :: int
  action_dim :: int
  hidden_dim :: int
  learning_rate :: real
  gamma :: real
  buffer_size :: int
  batch_size :: int
  target_update :: int
  epsilon_start :: real
  epsilon_end :: real
  epsilon_decay :: real
  priority_alpha :: real
  priority_beta :: real
  priority_epsilon :: real

text \<open>The defaults of the dataclass.\<close>

definition DQNConfig_default :: DQNConfig where
  "DQNConfig_default =
     \<lparr>state_dim = 6, action_dim = 3, hidden_dim = 128, learning_rate = 1 / 1000,
      gamma = 99 / 100, buffer_size = 100000, batch_size = 64, target_update = 1000,
      epsilon_start = 1, epsilon_end = 1 / 100, epsilon_decay = 995 / 1000,
      priority_alpha = 6 / 10, priority_beta = 4 / 10, priority_epsilon = 1 / 1000000\<rparr>"

text \<open>
  \<^verbatim>\<open>DQNetwork\<close>: an \<^verbatim>\<open>nn.Sequential\<close> of \<^verbatim>\<open>nn.Linear\<close> and \<^verbatim>\<open>nn.ReLU\<close> layers. A linear layer
  holds its weight matrix (one row per output feature) and its bias. The parameters of the
  network (its \<^verbatim>\<open>state_dict\<close>) are the layers themselves.
\<close>

datatype layer = Linear "real list list" "real list" | ReLU

type_synonym DQNetwork = "layer list"

fun layer_forward :: "layer \<Rightarrow> real list \<Rightarrow> error + real list" where
  "layer_forward (Linear W b) x =
     (if (\<forall>row \<in> set W. length row = length x) \<and> length b = length W
      then Inr (map (\<lambda>(row, bi). sum_list (map (\<lambda>(w, xi). w * xi) (zip row x)) + bi) (zip W b))
      else Inl (RuntimeError ''mat1 and mat2 shapes cannot be multiplied''))"
| "layer_forward ReLU x = Inr (map (max 0) x)"

fun forward :: "DQNetwork \<Rightarrow> real list \<Rightarrow> error + real list" where
  "forward [] x = Inr x"
| "forward (l # ls) x = (case layer_forward l x of Inl e \<Rightarrow> Inl e | Inr y \<Rightarrow> forward ls y)"

text \<open>
  The constructor of \<^verbatim>\<open>DQNetwork\<close>; the initial weights are drawn at random by the library
  and are the arguments \<open>w\<close> (layer, row, column) and \<open>bs\<close> (layer, row). A negative dimension
  raises.
\<close>

definition linear_init :: "nat \<Rightarrow> nat \<Rightarrow> (nat \<Rightarrow> nat \<Rightarrow> real) \<Rightarrow> (nat \<Rightarrow> real) \<Rightarrow> layer" where
  "linear_init n_in n_out w bs =
     Linear (map (\<lambda>r. map (\<lambda>c. w r c) [0..<n_in]) [0..<n_out]) (map bs [0..<n_out])"

definition DQNetwork_init ::
  "DQNConfig \<Rightarrow> (nat \<Rightarrow> nat \<Rightarrow> nat \<Rightarrow> real) \<Rightarrow> (nat \<Rightarrow> nat \<Rightarrow> real) \<Rightarrow> error + DQNetwork" where
  "DQNetwork_init cfg w bs =
     (if state_dim cfg < 0 \<or> hidden_dim cfg < 0 \<or> action_dim cfg < 0
      then Inl (RuntimeError ''Trying to create tensor with negative dimension'')
      else Inr [linear_init (nat (state_dim cfg)) (nat (hidden_dim cfg)) (w 0) (bs 0), ReLU,
                linear_init (nat (hidden_dim cfg)) (nat (hidden_dim cfg)) (w 1) (bs 1), ReLU,
                linear_init (nat (hidden_dim cfg)) (nat (action_dim cfg)) (w 2) (bs 2)])"

text \<open>
  \<^verbatim>\<open>tensor.max(1)[1]\<close> on one row: the index of the first maximal entry; an empty row raises.
\<close>

fun argmax_from :: "nat \<Rightarrow> real \<Rightarrow> nat \<Rightarrow> real list \<Rightarrow> nat" where
  "argmax_from best v i [] = best"
| "argmax_from best v i (x # xs) =
     (if v < x then argmax_from i x (Suc i) xs else argmax_from best v (Suc i) xs)"

definition argmax :: "real list \<Rightarrow> error + nat" where
  "argmax xs =
     (case xs of
        [] \<Rightarrow> Inl (IndexError ''max(): Expected reduction dim 1 to have non-zero size'')
      | x # xs' \<Rightarrow> Inr (argmax_from 0 x 1 xs'))"

subsection \<open>The agent\<close>

text \<open>
  The optimizer state is a type parameter; \<^verbatim>\<open>writer\<close> is the TensorBoard log, a list of
  (tag, value, step) entries.
\<close>

record 'o DQNAgent =
  config :: DQNConfig
  policy_net :: DQNetwork
  target_net :: DQNetwork
  optimizer :: 'o
  memory :: PrioritizedReplayBuffer
  epsilon :: real
  steps :: int
  writer :: "(string \<times> real \<times> int) list"

text \<open>
  \<^verbatim>\<open>DQNAgent.__init__\<close>: the target network is created and then overwritten with the policy
  network's parameters. \<open>adam\<close> is the constructor of the optimizer.
\<close>

definition DQNAgent_init ::
  "DQNConfig \<Rightarrow> (nat \<Rightarrow> nat \<Rightarrow> nat \<Rightarrow> real) \<Rightarrow> (nat \<Rightarrow> nat \<Rightarrow> real)
     \<Rightarrow> (DQNetwork \<Rightarrow> real \<Rightarrow> 'o) \<Rightarrow> error + 'o DQNAgent" where
  "DQNAgent_init cfg w bs adam =
     (case DQNetwork_init cfg w bs of
        Inl e \<Rightarrow> Inl e
      | Inr net \<Rightarrow>
          if buffer_size cfg < 0 then Inl (ValueError ''negative dimensions are not allowed'')
          else Inr \<lparr>config = cfg, policy_net = net, target_net = net,
                    optimizer = adam net (learning_rate cfg),
                    memory = PrioritizedReplayBuffer_init (nat (buffer_size cfg)) (priority_alpha cfg),
                    epsilon = epsilon_start cfg, steps = 0, writer = []\<rparr>)"

text \<open>
  \<^verbatim>\<open>random.randrange(n)\<close>: raises for \<open>n \<le> 0\<close>; otherwise the generator's raw draw, brought
  into \<open>range(n)\<close>.
\<close>

definition randrange :: "int \<Rightarrow> nat \<Rightarrow> error + int" where
  "randrange n raw =
     (if n \<le> 0 then Inl (ValueError ''empty range for randrange()'')
      else Inr (int raw mod n))"

text \<open>
  The body of \<^verbatim>\<open>select_action\<close> in the first class statement (lines 139 to 147): \<open>u\<close> is the
  outcome of \<^verbatim>\<open>random.random()\<close>, a number of \<open>[0, 1)\<close>, and \<open>raw\<close> the draw behind
  \<^verbatim>\<open>random.randrange\<close>.
\<close>

definition select_action_body :: "'o DQNAgent \<Rightarrow> real list \<Rightarrow> real \<Rightarrow> nat \<Rightarrow> error + int" where
  "select_action_body a st u raw =
     (if u < epsilon a then randrange (action_dim (config a)) raw
      else case forward (policy_net a) st of
             Inl e \<Rightarrow> Inl e
           | Inr q_values \<Rightarrow>
               (case argmax q_values of Inl e \<Rightarrow> Inl e | Inr i \<Rightarrow> Inr (int i)))"

text \<open>
  \<^verbatim>\<open>agent.select_action(state)\<close> on an agent of the module: the attribute is looked up on the
  class of the agent, and the call runs a body only if the class has the method.
\<close>

definition select_action :: "'o DQNAgent \<Rightarrow> real list \<Rightarrow> real \<Rightarrow> nat \<Rightarrow> error + int" where
  "select_action a st u raw =
     (if ''select_action'' \<in> set DQNAgent_methods then select_action_body a st u raw
      else Inl (AttributeError ''select_action''))"

subsection \<open>One optimization step\<close>

text \<open>\<^verbatim>\<open>torch.FloatTensor\<close> of a list of arrays: the rows must have one length.\<close>

definition stack :: "real list list \<Rightarrow> error + real list list" where
  "stack rows =
     (if \<forall>r \<in> set rows. length r = length (hd rows) then Inr rows
      else Inl (ValueError ''expected sequence of equal lengths''))"

text \<open>A network applied to a batch of shape \<open>[B, state_dim]\<close>: one output row per input row.\<close>

fun forward_batch :: "DQNetwork \<Rightarrow> real list list \<Rightarrow> error + real list list" where
  "forward_batch net [] = Inr []"
| "forward_batch net (x # xs) =
     (case forward net x of
        Inl e \<Rightarrow> Inl e
      | Inr y \<Rightarrow> (case forward_batch net xs of Inl e \<Rightarrow> Inl e | Inr ys \<Rightarrow> Inr (y # ys)))"

text \<open>\<^verbatim>\<open>.max(1)[1].unsqueeze(1)\<close>: the column of row-wise argmax indices, shape \<open>[B, 1]\<close>.\<close>

fun argmax_rows :: "real list list \<Rightarrow> error + nat list" where
  "argmax_rows [] = Inr []"
| "argmax_rows (r # rs) =
     (case argmax r of
        Inl e \<Rightarrow> Inl e
      | Inr i \<Rightarrow> (case argmax_rows rs of Inl e \<Rightarrow> Inl e | Inr js \<Rightarrow> Inr (i # js)))"

text \<open>
  \<^verbatim>\<open>q.gather(1, index)\<close> with an index column of shape \<open>[B, 1]\<close>: the column of the entries
  \<open>q[i][index[i]]\<close>, shape \<open>[B, 1]\<close>; an index outside the row raises.
\<close>

fun gather :: "real list list \<Rightarrow> int list \<Rightarrow> error + real list" where
  "gather [] [] = Inr []"
| "gather (row # rows) (i # idx) =
     (if 0 \<le> i \<and> i < int (length row)
      then (case gather rows idx of Inl e \<Rightarrow> Inl e | Inr vs \<Rightarrow> Inr (row ! nat i # vs))
      else Inl (RuntimeError ''index out of range in gather''))"
| "gather rows idx = Inl (RuntimeError ''Size does not match in gather'')"

text \<open>
  \<^verbatim>\<open>reward_batch + (1 - done_batch) * self.config.gamma * next_state_values\<close>.
  \<^verbatim>\<open>reward_batch\<close> and \<^verbatim>\<open>done_batch\<close> have shape \<open>[B]\<close> and \<^verbatim>\<open>next_state_values\<close>, the result
  of \<^verbatim>\<open>gather\<close>, has shape \<open>[B, 1]\<close>: the product broadcasts to shape \<open>[B, B]\<close>, the entry in
  row \<open>i\<close> and column \<open>j\<close> being \<open>(1 - done[j]) * gamma * next_state_values[i]\<close>, and the sum
  adds \<open>reward[j]\<close> to it.
\<close>

definition expected_q_values :: "real list \<Rightarrow> real list \<Rightarrow> real \<Rightarrow> real list \<Rightarrow> real list list" where
  "expected_q_values reward_batch done_batch g next_state_values =
     map (\<lambda>v. map (\<lambda>(r, d). r + (1 - d) * g * v) (zip reward_batch done_batch)) next_state_values"

text \<open>
  \<^verbatim>\<open>(expected_q_values - current_q_values).abs()\<close>: shape \<open>[B, B]\<close> minus shape \<open>[B, 1]\<close>, the
  column entry of row \<open>i\<close> being subtracted along row \<open>i\<close>.
\<close>

definition td_errors :: "real list list \<Rightarrow> real list \<Rightarrow> real list list" where
  "td_errors expected current = map (\<lambda>(row, c). map (\<lambda>e. \<bar>e - c\<bar>) row) (zip expected current)"

text \<open>
  \<^verbatim>\<open>smooth_l1_loss\<close> of \<^verbatim>\<open>torch.nn.functional\<close> with its default \<^verbatim>\<open>beta = 1.0\<close>, on one pair:
  what the loss line would call, were \<^verbatim>\<open>F\<close> bound to that module.
\<close>

definition smooth_l1_loss :: "real \<Rightarrow> real \<Rightarrow> real" where
  "smooth_l1_loss x y = (if \<bar>x - y\<bar> < 1 then (x - y) * (x - y) / 2 else \<bar>x - y\<bar> - 1 / 2)"

text \<open>
  \<^verbatim>\<open>(weights * smooth_l1_loss(current, expected, reduction='none')).mean()\<close>: the loss has
  shape \<open>[B, B]\<close>, the weights (shape \<open>[B]\<close>) multiply along each row, and the mean is over
  all entries.
\<close>

definition weighted_loss :: "real list \<Rightarrow> real list list \<Rightarrow> real list \<Rightarrow> real" where
  "weighted_loss weights expected current =
     (let entries = concat (map (\<lambda>(row, c). map (\<lambda>(w, e). w * smooth_l1_loss c e) (zip weights row))
                                (zip expected current))
      in sum_list entries / real (length entries))"

text \<open>\<^verbatim>\<open>self.policy_net(state_batch).gather(1, action_batch.unsqueeze(1))\<close>, shape \<open>[B, 1]\<close>.\<close>

definition current_q_values :: "DQNetwork \<Rightarrow> real list list \<Rightarrow> int list \<Rightarrow> error + real list" where
  "current_q_values net state_batch action_batch =
     (case forward_batch net state_batch of
        Inl e \<Rightarrow> Inl e
      | Inr q \<Rightarrow> gather q action_batch)"

text \<open>
  The Double-Q targets of a batch: the next action is the argmax of the policy network, its
  value is read from the target network.
\<close>

definition double_q_targets ::
  "DQNetwork \<Rightarrow> DQNetwork \<Rightarrow> real \<Rightarrow> real list \<Rightarrow> real list \<Rightarrow> real list list
     \<Rightarrow> error + real list list" where
  "double_q_targets policy target g reward_batch done_batch next_state_batch =
     (case forward_batch policy next_state_batch of
        Inl e \<Rightarrow> Inl e
      | Inr pq \<Rightarrow>
          (case argmax_rows pq of
             Inl e \<Rightarrow> Inl e
           | Inr next_actions \<Rightarrow>
               (case forward_batch target next_state_batch of
                  Inl e \<Rightarrow> Inl e
                | Inr tq \<Rightarrow>
                    (case gather tq (map int next_actions) of
                       Inl e \<Rightarrow> Inl e
                     | Inr next_state_values \<Rightarrow>
                         Inr (expected_q_values reward_batch done_batch g next_state_values)))))"

text \<open>
  The part of \<^verbatim>\<open>optimize_model\<close> between sampling and the optimizer: the batch tensors, the
  targets and the current estimates, in the order of the source. It returns the state and
  action batches (the loss depends on the policy parameters through them), the targets and
  the current estimates.
\<close>

definition batch_values ::
  "DQNetwork \<Rightarrow> DQNetwork \<Rightarrow> real \<Rightarrow> Transition list
     \<Rightarrow> error + (real list list \<times> int list \<times> real list list \<times> real list)" where
  "batch_values policy target g batch =
     (case stack (map state batch) of
        Inl e \<Rightarrow> Inl e
      | Inr state_batch \<Rightarrow>
          (case stack (map next_state batch) of
             Inl e \<Rightarrow> Inl e
           | Inr next_state_batch \<Rightarrow>
               (case double_q_targets policy target g (map reward batch)
                       (map (\<lambda>t. if done_t t then 1 else 0) batch) next_state_batch of
                  Inl e \<Rightarrow> Inl e
                | Inr expected \<Rightarrow>
                    (case current_q_values policy state_batch (map action batch) of
                       Inl e \<Rightarrow> Inl e
                     | Inr current \<Rightarrow> Inr (state_batch, map action batch, expected, current)))))"

text \<open>
  The rest of \<^verbatim>\<open>optimize_model\<close>, from the loss line on. The loss line evaluates the name
  \<^verbatim>\<open>F\<close> first of all that can raise; only if the name is bound does the rest run. \<open>opt_step\<close> stands for \<^verbatim>\<open>zero_grad\<close>, \<^verbatim>\<open>loss.backward()\<close>,
  \<^verbatim>\<open>clip_grad_norm_\<close> and \<^verbatim>\<open>optimizer.step()\<close>: from the optimizer state, the policy parameters
  and the loss as a function of the policy parameters it gives the new optimizer state and
  the new policy parameters. The priorities passed to \<^verbatim>\<open>update_priorities\<close> are the rows of
  the \<open>[B, B]\<close> array \<^verbatim>\<open>td_errors + priority_epsilon\<close>.
\<close>

definition commit ::
  "('o \<Rightarrow> DQNetwork \<Rightarrow> (DQNetwork \<Rightarrow> real) \<Rightarrow> 'o \<times> DQNetwork) \<Rightarrow> 'o DQNAgent
     \<Rightarrow> nat list \<Rightarrow> real list \<Rightarrow> real list list \<Rightarrow> int list \<Rightarrow> real list list \<Rightarrow> real list
     \<Rightarrow> (error + real) \<times> 'o DQNAgent" where
  "commit opt_step a indices weights state_batch action_batch expected current =
     (case lookup_global ''F'' of
        Inl e \<Rightarrow> (Inl e, a)
      | Inr bound \<Rightarrow>
      (let loss = weighted_loss weights expected current;
          stepped = opt_step (optimizer a) (policy_net a)
                      (\<lambda>net. case current_q_values net state_batch action_batch of
                                Inl e \<Rightarrow> 0
                              | Inr c \<Rightarrow> weighted_loss weights expected c);
          a1 = a\<lparr>optimizer := fst stepped, policy_net := snd stepped\<rparr>;
          updated = update_priorities (map int indices)
                      (map (\<lambda>row. Ar (map (\<lambda>x. Sc (x + priority_epsilon (config a))) row))
                           (td_errors expected current))
                      (memory a1);
          a2 = a1\<lparr>memory := snd updated\<rparr>
      in case fst updated of
           Some e \<Rightarrow> (Inl e, a2)
         | None \<Rightarrow>
             if target_update (config a) = 0 then (Inl ZeroDivisionError, a2)
             else
               let a3 = (if steps a2 mod target_update (config a) = 0
                         then a2\<lparr>target_net := policy_net a2\<rparr> else a2);
                   a4 = a3\<lparr>epsilon := max (epsilon_end (config a)) (epsilon a3 * epsilon_decay (config a))\<rparr>;
                   a5 = a4\<lparr>steps := steps a4 + 1\<rparr>;
                   a6 = a5\<lparr>writer := writer a5 @
                          [(''Loss'', loss, steps a5), (''Epsilon'', epsilon a5, steps a5),
                           (''Buffer Size'', real (length (buffer (memory a5))), steps a5)]\<rparr>
               in (Inr loss, a6)))"

text \<open>
  \<^verbatim>\<open>optimize_model\<close>: the result (the loss, or the exception raised) and the agent after the
  call. \<open>us\<close> are the uniform variates that sampling consumes.
\<close>

definition optimize_model ::
  "('o \<Rightarrow> DQNetwork \<Rightarrow> (DQNetwork \<Rightarrow> real) \<Rightarrow> 'o \<times> DQNetwork) \<Rightarrow> (nat \<Rightarrow> real) \<Rightarrow> 'o DQNAgent
     \<Rightarrow> (error + real) \<times> 'o DQNAgent" where
  "optimize_model opt_step us a =
     (if int (length (buffer (memory a))) < batch_size (config a) then (Inr 0, a)
      else
        case sample (memory a) (batch_size (config a)) (priority_beta (config a)) us of
          Inl e \<Rightarrow> (Inl e, a)
        | Inr (batch, indices, weights) \<Rightarrow>
            (case batch_values (policy_net a) (target_net a) (gamma (config a)) batch of
               Inl e \<Rightarrow> (Inl e, a)
             | Inr (state_batch, action_batch, expected, current) \<Rightarrow>
                 commit opt_step a indices weights state_batch action_batch expected current))"

text \<open>
  Repeated calls of \<^verbatim>\<open>optimize_model\<close>, one list of uniform variates per call: the agent
  before the first call and after each call. A call that raises leaves the agent as it
  stands at the raise, and the caller may go on.
\<close>

fun optimize_trace ::
  "('o \<Rightarrow> DQNetwork \<Rightarrow> (DQNetwork \<Rightarrow> real) \<Rightarrow> 'o \<times> DQNetwork) \<Rightarrow> (nat \<Rightarrow> real) list
     \<Rightarrow> 'o DQNAgent \<Rightarrow> 'o DQNAgent list" where
  "optimize_trace opt_step [] a = [a]"
| "optimize_trace opt_step (us # uss) a =
     a # optimize_trace opt_step uss (snd (optimize_model opt_step us a))"

subsection \<open>Checkpoints\<close>

text \<open>
  The dictionary that \<^verbatim>\<open>save_model\<close> of the first class statement pickles; an entry that a stored dictionary lacks is
  \<open>None\<close>. A file holds a pickled dictionary or bytes that do not unpickle.
\<close>

record 'o checkpoint =
  ck_policy_net :: "DQNetwork option"
  ck_target_net :: "DQNetwork option"
  ck_optimizer :: "'o option"
  ck_epsilon :: "real option"
  ck_steps :: "int option"
  ck_config :: "DQNConfig option"

datatype 'o stored_file = Pickled "'o checkpoint" | Garbage

definition torch_load :: "(string \<rightharpoonup> 'o stored_file) \<Rightarrow> string \<Rightarrow> error + 'o checkpoint" where
  "torch_load fs path =
     (case fs path of
        None \<Rightarrow> Inl (FileNotFoundError path)
      | Some Garbage \<Rightarrow> Inl (UnpicklingError ''invalid load key'')
      | Some (Pickled ck) \<Rightarrow> Inr ck)"

text \<open>
  The body of \<^verbatim>\<open>load_model\<close> in the first class statement (lines 219 to 231): the
  statements of the \<^verbatim>\<open>try\<close> block in their order, each definition being
  the block from one statement on; the handler logs and re-raises the exception it caught (a
  bare \<^verbatim>\<open>raise\<close>), so the result is that exception and the agent as the statements before
  the failing one left it. The library's \<^verbatim>\<open>load_state_dict\<close> of a module and of an optimizer
  are the arguments \<open>net_load\<close> and \<open>opt_load\<close>: from the current parameters and the stored
  ones they give the exception raised, if any, and the parameters after the call.
\<close>

definition load_epsilon_steps :: "'o checkpoint \<Rightarrow> 'o DQNAgent \<Rightarrow> error option \<times> 'o DQNAgent" where
  "load_epsilon_steps ck a =
     (case ck_epsilon ck of
        None \<Rightarrow> (Some (KeyError ''epsilon''), a)
      | Some eps \<Rightarrow>
          (case ck_steps ck of
             None \<Rightarrow> (Some (KeyError ''steps''), a\<lparr>epsilon := eps\<rparr>)
           | Some s \<Rightarrow> (None, a\<lparr>epsilon := eps, steps := s\<rparr>)))"

definition load_optimizer ::
  "('o \<Rightarrow> 'o \<Rightarrow> error option \<times> 'o) \<Rightarrow> 'o checkpoint \<Rightarrow> 'o DQNAgent \<Rightarrow> error option \<times> 'o DQNAgent" where
  "load_optimizer opt_load ck a =
     (case ck_optimizer ck of
        None \<Rightarrow> (Some (KeyError ''optimizer''), a)
      | Some os \<Rightarrow>
          (case fst (opt_load (optimizer a) os) of
             Some e \<Rightarrow> (Some e, a\<lparr>optimizer := snd (opt_load (optimizer a) os)\<rparr>)
           | None \<Rightarrow> load_epsilon_steps ck (a\<lparr>optimizer := snd (opt_load (optimizer a) os)\<rparr>)))"

definition load_target_net ::
  "(DQNetwork \<Rightarrow> DQNetwork \<Rightarrow> error option \<times> DQNetwork) \<Rightarrow> ('o \<Rightarrow> 'o \<Rightarrow> error option \<times> 'o)
     \<Rightarrow> 'o checkpoint \<Rightarrow> 'o DQNAgent \<Rightarrow> error option \<times> 'o DQNAgent" where
  "load_target_net net_load opt_load ck a =
     (case ck_target_net ck of
        None \<Rightarrow> (Some (KeyError ''target_net''), a)
      | Some sd \<Rightarrow>
          (case fst (net_load (target_net a) sd) of
             Some e \<Rightarrow> (Some e, a\<lparr>target_net := snd (net_load (target_net a) sd)\<rparr>)
           | None \<Rightarrow> load_optimizer opt_load ck (a\<lparr>target_net := snd (net_load (target_net a) sd)\<rparr>)))"

definition load_model_body ::
  "(DQNetwork \<Rightarrow> DQNetwork \<Rightarrow> error option \<times> DQNetwork) \<Rightarrow> ('o \<Rightarrow> 'o \<Rightarrow> error option \<times> 'o)
     \<Rightarrow> (string \<rightharpoonup> 'o stored_file) \<Rightarrow> string \<Rightarrow> 'o DQNAgent \<Rightarrow> error option \<times> 'o DQNAgent" where
  "load_model_body net_load opt_load fs path a =
     (case torch_load fs path of
        Inl e \<Rightarrow> (Some e, a)
      | Inr ck \<Rightarrow>
          (case ck_policy_net ck of
             None \<Rightarrow> (Some (KeyError ''policy_net''), a)
           | Some sd \<Rightarrow>
               (case fst (net_load (policy_net a) sd) of
                  Some e \<Rightarrow> (Some e, a\<lparr>policy_net := snd (net_load (policy_net a) sd)\<rparr>)
                | None \<Rightarrow>
                    load_target_net net_load opt_load ck
                      (a\<lparr>policy_net := snd (net_load (policy_net a) sd)\<rparr>))))"


subsection \<open>The tabular agent\<close>

text \<open>
  A dense numpy array: its shape and its entries in row-major order. A scalar has the empty
  shape.
\<close>

record ndarray =
  shape :: "nat list"
  data :: "real list"

definition np_zeros :: "nat list \<Rightarrow> ndarray" where
  "np_zeros shp = \<lparr>shape = shp, data = replicate (prod_list shp) 0\<rparr>"

text \<open>The row-major offset of a tuple of indices, one per leading dimension.\<close>

fun ravel :: "nat list \<Rightarrow> nat list \<Rightarrow> nat" where
  "ravel (n # shp) (k # ks) = k * prod_list shp + ravel shp ks"
| "ravel shp ks = 0"

text \<open>
  The indices of \<^verbatim>\<open>a[idx]\<close> for a tuple of integers, normalised: more indices than
  dimensions raise \<^verbatim>\<open>IndexError\<close> (too many indices), an index outside its dimension raises
  \<^verbatim>\<open>IndexError\<close>, a negative index counts from the end.
\<close>

definition np_index :: "ndarray \<Rightarrow> int list \<Rightarrow> error + nat list" where
  "np_index a idx =
     (if length (shape a) < length idx then Inl (IndexError ''too many indices for array'')
      else case those (map (\<lambda>(n, i). norm_index n i) (zip (shape a) idx)) of
             None \<Rightarrow> Inl (IndexError ''index is out of bounds'')
           | Some ks \<Rightarrow> Inr ks)"

text \<open>
  \<^verbatim>\<open>a[idx]\<close>: the sub-array under the indexed leading dimensions (a scalar when every
  dimension is indexed).
\<close>

definition np_getitem :: "ndarray \<Rightarrow> int list \<Rightarrow> error + ndarray" where
  "np_getitem a idx =
     (case np_index a idx of
        Inl e \<Rightarrow> Inl e
      | Inr ks \<Rightarrow>
          let rest = drop (length ks) (shape a);
              lo = ravel (shape a) ks
          in Inr \<lparr>shape = rest, data = take (prod_list rest) (drop lo (data a))\<rparr>)"

text \<open>\<^verbatim>\<open>a[idx] = values\<close> for values of the shape of \<^verbatim>\<open>a[idx]\<close>.\<close>

definition np_setitem :: "ndarray \<Rightarrow> int list \<Rightarrow> real list \<Rightarrow> error + ndarray" where
  "np_setitem a idx values =
     (case np_index a idx of
        Inl e \<Rightarrow> Inl e
      | Inr ks \<Rightarrow>
          let lo = ravel (shape a) ks
          in Inr (a\<lparr>data := take lo (data a) @ values @ drop (lo + length values) (data a)\<rparr>))"

text \<open>\<^verbatim>\<open>np.max(a)\<close>: the maximum over all entries; an empty array raises.\<close>

definition np_max :: "ndarray \<Rightarrow> error + real" where
  "np_max a =
     (if data a = [] then Inl (ValueError ''zero-size array to reduction operation maximum which has no identity'')
      else Inr (Max (set (data a))))"

text \<open>The module constants.\<close>

definition SCREEN_WIDTH :: real where "SCREEN_WIDTH = 800"
definition SCREEN_HEIGHT :: real where "SCREEN_HEIGHT = 500"
definition BALL_SPEED :: real where "BALL_SPEED = 7"
definition STATE_BINS :: "nat list" where "STATE_BINS = [12, 12, 6, 6]"
definition ACTIONS :: "int list" where "ACTIONS = [0, 1, 2]"
definition ALPHA :: real where "ALPHA = 1 / 10"
definition GAMMA :: real where "GAMMA = 95 / 100"
definition EPSILON_START :: real where "EPSILON_START = 1"
definition EPSILON_MIN :: real where "EPSILON_MIN = 2 / 100"
definition EPSILON_DECAY :: real where "EPSILON_DECAY = 998 / 1000"

record Ball =
  ball_x :: real
  ball_y :: real
  ball_vx :: real
  ball_vy :: real

record QAgent =
  q_table :: ndarray
  alpha_q :: real
  gamma_q :: real
  epsilon_q :: real
  epsilon_min :: real
  epsilon_decay_q :: real
  last_state :: "int list option"
  last_action :: "int option"
  difficulty :: string

text \<open>
  \<^verbatim>\<open>QAgent.__init__\<close>: the table is \<^verbatim>\<open>np.zeros(bins + (len(ACTIONS),))\<close>, of shape
  \<open>(12, 12, 6, 6, 3)\<close>: four state dimensions and the action dimension.
\<close>

definition QAgent_init :: "string \<Rightarrow> QAgent" where
  "QAgent_init d =
     \<lparr>q_table = np_zeros (STATE_BINS @ [length ACTIONS]), alpha_q = ALPHA, gamma_q = GAMMA,
      epsilon_q = EPSILON_START, epsilon_min = EPSILON_MIN, epsilon_decay_q = EPSILON_DECAY,
      last_state = None, last_action = None, difficulty = d\<rparr>"

text \<open>Python's \<^verbatim>\<open>int(x)\<close> on a float: truncation towards zero.\<close>

definition py_int :: "real \<Rightarrow> int" where
  "py_int x = (if 0 \<le> x then \<lfloor>x\<rfloor> else \<lceil>x\<rceil>)"

text \<open>
  \<^verbatim>\<open>discretize_state\<close>: a tuple of five bin indices (ball position, ball velocity, paddle
  position); the second argument is \<^verbatim>\<open>paddle.y\<close>.
\<close>

definition discretize_state :: "Ball \<Rightarrow> real \<Rightarrow> int list" where
  "discretize_state ball paddle_y =
     [py_int (ball_x ball * real (STATE_BINS ! 0) / SCREEN_WIDTH),
      py_int (ball_y ball * real (STATE_BINS ! 1) / SCREEN_HEIGHT),
      py_int ((ball_vx ball + BALL_SPEED) * real (STATE_BINS ! 2) / (2 * BALL_SPEED)),
      py_int ((ball_vy ball + BALL_SPEED) * real (STATE_BINS ! 3) / (2 * BALL_SPEED)),
      py_int (paddle_y * real (STATE_BINS ! 1) / SCREEN_HEIGHT)]"

text \<open>
  \<^verbatim>\<open>update\<close>: \<^verbatim>\<open>old_q\<close> is read at \<^verbatim>\<open>old_state + (action,)\<close>, \<^verbatim>\<open>future_q\<close> is the maximum
  of the sub-array at \<^verbatim>\<open>new_state\<close>, and the entry (each entry, should the index leave
  dimensions open) at \<^verbatim>\<open>old_state + (action,)\<close> is increased by
  \<^verbatim>\<open>alpha * (reward + gamma * future_q - old_q)\<close>.
\<close>

definition update :: "QAgent \<Rightarrow> int list \<Rightarrow> int \<Rightarrow> real \<Rightarrow> int list \<Rightarrow> error + QAgent" where
  "update a old_state act r new_state =
     (case np_getitem (q_table a) (old_state @ [act]) of
        Inl e \<Rightarrow> Inl e
      | Inr old_q \<Rightarrow>
          (case np_getitem (q_table a) new_state of
             Inl e \<Rightarrow> Inl e
           | Inr next_q \<Rightarrow>
               (case np_max next_q of
                  Inl e \<Rightarrow> Inl e
                | Inr future_q \<Rightarrow>
                    (case np_setitem (q_table a) (old_state @ [act])
                            (map (\<lambda>q. q + alpha_q a * (r + gamma_q a * future_q - q)) (data old_q)) of
                       Inl e \<Rightarrow> Inl e
                     | Inr table \<Rightarrow> Inr (a\<lparr>q_table := table\<rparr>)))))"

definition decay_epsilon :: "QAgent \<Rightarrow> QAgent" where
  "decay_epsilon a = a\<lparr>epsilon_q := max (epsilon_min a) (epsilon_q a * epsilon_decay_q a)\<rparr>"

subsection \<open>Invariants and derived notions\<close>

text \<open>
  The states that the constructor, \<^verbatim>\<open>push\<close> and priority updates at held indices with
  non-negative values produce: the priority array has \<open>capacity\<close> slots, all non-negative,
  the slots beyond the held transitions are still zero, and while the buffer is filling the
  cursor is the number of held transitions.
\<close>

definition buffer_inv :: "PrioritizedReplayBuffer \<Rightarrow> bool" where
  "buffer_inv b \<longleftrightarrow>
     0 < capacity b \<and> length (priorities b) = capacity b \<and>
     length (buffer b) \<le> capacity b \<and>
     (if length (buffer b) < capacity b then position b = length (buffer b)
      else position b < capacity b) \<and>
     (\<forall>i < capacity b. 0 \<le> priorities b ! i) \<and>
     (\<forall>i < capacity b. length (buffer b) \<le> i \<longrightarrow> priorities b ! i = 0)"

text \<open>The held transitions from the oldest to the newest: the ring read from the cursor.\<close>

definition chronological :: "PrioritizedReplayBuffer \<Rightarrow> Transition list" where
  "chronological b = drop (position b) (buffer b) @ take (position b) (buffer b)"

text \<open>The buffer after a \<^verbatim>\<open>push\<close> that raises nothing.\<close>

definition push_result :: "Transition \<Rightarrow> PrioritizedReplayBuffer \<Rightarrow> PrioritizedReplayBuffer" where
  "push_result t b =
     b\<lparr>buffer := (if length (buffer b) < capacity b then buffer b @ [t] else (buffer b)[position b := t]),
       priorities := (priorities b)[position b :=
          (if buffer b = [] then 1 else Max (set (take (length (buffer b)) (priorities b))))],
       position := (position b + 1) mod capacity b\<rparr>"

text \<open>\<^verbatim>\<open>for t in ts: buffer.push(t)\<close>\<close>

fun push_all :: "Transition list \<Rightarrow> PrioritizedReplayBuffer \<Rightarrow> error + PrioritizedReplayBuffer" where
  "push_all [] b = Inr b"
| "push_all (t # ts) b = (case push t b of Inl e \<Rightarrow> Inl e | Inr b' \<Rightarrow> push_all ts b')"

text \<open>Every held transition has a positive priority.\<close>

definition held_positive :: "PrioritizedReplayBuffer \<Rightarrow> bool" where
  "held_positive b \<longleftrightarrow> (\<forall>i < length (buffer b). 0 < priorities b ! i)"

text \<open>The sampling distribution \<^verbatim>\<open>probabilities\<close> that \<^verbatim>\<open>sample\<close> computes.\<close>

definition probabilities :: "PrioritizedReplayBuffer \<Rightarrow> real option list" where
  "probabilities b =
     np_normalize (map (\<lambda>p. np_power p (alpha b)) (take (length (buffer b)) (priorities b)))"

text \<open>A network with the architecture and the dimensions of a configuration.\<close>

fun linear_shape :: "nat \<Rightarrow> nat \<Rightarrow> layer \<Rightarrow> bool" where
  "linear_shape n_in n_out (Linear W b) \<longleftrightarrow>
     length W = n_out \<and> length b = n_out \<and> (\<forall>row \<in> set W. length row = n_in)"
| "linear_shape n_in n_out ReLU \<longleftrightarrow> False"

fun network_shape :: "DQNConfig \<Rightarrow> DQNetwork \<Rightarrow> bool" where
  "network_shape cfg [l1, ReLU, l2, ReLU, l3] \<longleftrightarrow>
     0 \<le> state_dim cfg \<and> 0 \<le> hidden_dim cfg \<and> 0 \<le> action_dim cfg \<and>
     linear_shape (nat (state_dim cfg)) (nat (hidden_dim cfg)) l1 \<and>
     linear_shape (nat (hidden_dim cfg)) (nat (hidden_dim cfg)) l2 \<and>
     linear_shape (nat (hidden_dim cfg)) (nat (action_dim cfg)) l3"
| "network_shape cfg net \<longleftrightarrow> False"

subsection \<open>Values for the examples\<close>

text \<open>A transition for the examples, told apart by its reward.\<close>

definition tr :: "real \<Rightarrow> Transition" where
  "tr r = \<lparr>state = [0], action = 0, reward = r, next_state = [0], done_t = False\<rparr>"

text \<open>A terminal transition with reward \<open>1\<close>, for the examples.\<close>

definition terminal_transition :: Transition where
  "terminal_transition = \<lparr>state = [3], action = 1, reward = 1, next_state = [5], done_t = True\<rparr>"

text \<open>A second transition for the examples, not terminal.\<close>

definition running_transition :: Transition where
  "running_transition = \<lparr>state = [2], action = 0, reward = 0, next_state = [7], done_t = False\<rparr>"

text \<open>A buffer of capacity four that holds the terminal transition.\<close>

definition one_held :: PrioritizedReplayBuffer where
  "one_held = \<lparr>capacity = 4, alpha = 1, priorities = [1, 0, 0, 0],
               buffer = [terminal_transition], position = 1\<rparr>"


text \<open>
  An agent for the examples: scalar states, one hidden unit per hidden layer, two actions;
  on a state \<open>[s]\<close> with \<open>s \<ge> 0\<close> the network's outputs are \<open>[s, 2 * s]\<close>.
\<close>

definition small_net :: DQNetwork where
  "small_net = [Linear [[1]] [0], ReLU, Linear [[1]] [0], ReLU, Linear [[1], [2]] [0, 0]]"

definition small_agent :: "int \<Rightarrow> int \<Rightarrow> PrioritizedReplayBuffer \<Rightarrow> nat DQNAgent" where
  "small_agent bsz tu m =
     \<lparr>config = DQNConfig_default\<lparr>state_dim := 1, action_dim := 2, hidden_dim := 1, batch_size := bsz, target_update := tu\<rparr>,
      policy_net = small_net, target_net = small_net, optimizer = 0,
      memory = m, epsilon = 1, steps = 0, writer = []\<rparr>"

text \<open>
  An optimizer step for the examples: it counts the steps in the optimizer state and moves the
  bias of the last layer, so that the policy parameters differ after every step.
\<close>

definition bump_step :: "nat \<Rightarrow> DQNetwork \<Rightarrow> (DQNetwork \<Rightarrow> real) \<Rightarrow> nat \<times> DQNetwork" where
  "bump_step n net l = (Suc n, butlast net @ [Linear [[1], [2]] [real (Suc n), 0]])"

text \<open>
  The agent that \<^verbatim>\<open>DQNAgent(DQNConfig())\<close> constructs, with all initial weights zero and an
  optimizer state that counts the steps taken.
\<close>

definition zero_net :: DQNetwork where
  "zero_net = [linear_init 6 128 (\<lambda>r c. 0) (\<lambda>r. 0), ReLU,
               linear_init 128 128 (\<lambda>r c. 0) (\<lambda>r. 0), ReLU,
               linear_init 128 3 (\<lambda>r c. 0) (\<lambda>r. 0)]"

definition fresh_agent :: "nat DQNAgent" where
  "fresh_agent =
     \<lparr>config = DQNConfig_default, policy_net = zero_net, target_net = zero_net, optimizer = 0,
      memory = PrioritizedReplayBuffer_init 100000 (6 / 10), epsilon = 1, steps = 0, writer = []\<rparr>"

text \<open>
  A loader for the examples: it replaces the parameters by the stored ones when the layers
  have the same dimensions and otherwise raises and leaves them as they were.
\<close>

fun layer_dims :: "layer \<Rightarrow> nat list" where
  "layer_dims (Linear W b) = [length W, length b] @ map length W"
| "layer_dims ReLU = []"

definition strict_load :: "DQNetwork \<Rightarrow> DQNetwork \<Rightarrow> error option \<times> DQNetwork" where
  "strict_load cur sd =
     (if map layer_dims sd = map layer_dims cur then (None, sd)
      else (Some (RuntimeError ''size mismatch''), cur))"

text \<open>A stored dictionary with the policy parameters only.\<close>

definition policy_only :: "nat checkpoint" where
  "policy_only =
     \<lparr>ck_policy_net = Some [Linear [[1]] [0], ReLU, Linear [[1]] [0], ReLU, Linear [[1], [2]] [7, 7]],
      ck_target_net = None, ck_optimizer = None, ck_epsilon = None, ck_steps = None,
      ck_config = None\<rparr>"

section \<open>Properties\<close>

subsection \<open>The replay buffer: push\<close>

lemma py_max_Max: "xs \<noteq> [] \<Longrightarrow> py_max xs = Inr (Max (set xs))"
  by (cases xs) (auto simp: Max.set_eq_fold[symmetric])

lemma Max_held:
  assumes "0 < n" "n \<le> length ps" "\<forall>i < length ps. 0 \<le> ps ! i"
    "\<forall>i < length ps. n \<le> i \<longrightarrow> ps ! i = (0::real)"
  shows "Max (set ps) = Max (set (take n ps))"
proof (rule antisym)
  have ne: "set (take n ps) \<noteq> {}" using assms by (cases ps) auto
  show "Max (set ps) \<le> Max (set (take n ps))"
  proof (rule Max.boundedI)
    show "finite (set ps)" by simp
    show "set ps \<noteq> {}" using assms by auto
    fix a assume "a \<in> set ps"
    then obtain i where i: "i < length ps" "ps ! i = a" by (auto simp: in_set_conv_nth)
    show "a \<le> Max (set (take n ps))"
    proof (cases "i < n")
      case True
      then have "a \<in> set (take n ps)" using i by (auto simp: in_set_conv_nth intro!: exI[of _ i])
      then show ?thesis by simp
    next
      case False
      then have "a = 0" using assms i by auto
      moreover have "ps ! 0 \<in> set (take n ps)" using assms by (auto simp: in_set_conv_nth intro!: exI[of _ 0])
      moreover have "0 < length ps" using assms by linarith
      then have "0 \<le> ps ! 0" using assms(3) by blast
      ultimately show ?thesis by (metis List.finite_set Max_ge order_trans)
    qed
  qed
  show "Max (set (take n ps)) \<le> Max (set ps)"
    using ne by (intro Max_mono) (auto dest: in_set_takeD)
qed

lemma push_eq:
  assumes "buffer_inv b"
  shows "push t b = Inr (push_result t b)"
proof (cases "buffer b = []")
  case True
  then show ?thesis using assms
    by (simp add: push_def push_result_def buffer_inv_def)
next
  case False
  have ne: "priorities b \<noteq> []" using assms by (auto simp: buffer_inv_def)
  have "Max (set (priorities b)) = Max (set (take (length (buffer b)) (priorities b)))"
    using assms False by (intro Max_held) (auto simp: buffer_inv_def)
  then have "py_max (priorities b) = Inr (Max (set (take (length (buffer b)) (priorities b))))"
    using py_max_Max[OF ne] by simp
  then show ?thesis using assms False
    by (auto simp: push_def push_result_def buffer_inv_def Let_def split: if_splits)
qed

lemma Max_take_nonneg:
  assumes "0 < n" "n \<le> length ps" "\<forall>i < length ps. 0 \<le> ps ! i"
  shows "(0::real) \<le> Max (set (take n ps))"
proof -
  have "ps ! 0 \<in> set (take n ps)" using assms by (auto simp: in_set_conv_nth intro!: exI[of _ 0])
  moreover have "0 < length ps" using assms by linarith
  then have "0 \<le> ps ! 0" using assms(3) by blast
  ultimately show ?thesis by (metis List.finite_set Max_ge order_trans)
qed

lemma push_result_inv:
  assumes "buffer_inv b"
  shows "buffer_inv (push_result t b)"
proof (cases "length (buffer b) < capacity b")
  case True
  have mp: "0 \<le> (if buffer b = [] then 1 else Max (set (take (length (buffer b)) (priorities b))))"
    using assms Max_take_nonneg[of "length (buffer b)" "priorities b"]
    by (auto simp: buffer_inv_def)
  show ?thesis using assms True mp
    unfolding buffer_inv_def push_result_def
    by (auto simp: nth_list_update mod_Suc)
next
  case False
  then have full: "length (buffer b) = capacity b" using assms by (simp add: buffer_inv_def)
  have mp: "0 \<le> (if buffer b = [] then 1 else Max (set (take (length (buffer b)) (priorities b))))"
    using assms Max_take_nonneg[of "length (buffer b)" "priorities b"]
    by (auto simp: buffer_inv_def)
  show ?thesis using assms full mp
    unfolding buffer_inv_def push_result_def
    by (auto simp: nth_list_update)
qed

lemma chronological_push_result:
  assumes "buffer_inv b"
  shows "chronological (push_result t b) =
           (if length (buffer b) < capacity b then chronological b @ [t]
            else tl (chronological b) @ [t])"
proof (cases "length (buffer b) < capacity b")
  case True
  then have pos: "position b = length (buffer b)" using assms by (simp add: buffer_inv_def)
  show ?thesis
  proof (cases "Suc (length (buffer b)) = capacity b")
    case True
    then show ?thesis using pos \<open>length (buffer b) < capacity b\<close>
      by (simp add: chronological_def push_result_def)
  next
    case False
    then have "Suc (length (buffer b)) mod capacity b = Suc (length (buffer b))"
      using True by simp
    then show ?thesis using pos True
      by (simp add: chronological_def push_result_def)
  qed
next
  case False
  then have full: "length (buffer b) = capacity b" and pos: "position b < capacity b"
    using assms by (auto simp: buffer_inv_def split: if_splits)
  have cap: "0 < capacity b" using assms by (simp add: buffer_inv_def)
  let ?p = "position b" and ?xs = "buffer b"
  have tl_eq: "tl (chronological b) = drop (Suc ?p) ?xs @ take ?p ?xs"
    using pos full by (simp add: chronological_def drop_Suc tl_drop)
  show ?thesis
  proof (cases "Suc ?p = capacity b")
    case True
    then have "chronological (push_result t b) = take ?p ?xs @ [t]"
      using full pos by (simp add: chronological_def push_result_def upd_conv_take_nth_drop)
    then show ?thesis using tl_eq True full False by simp
  next
    case False
    then have m: "Suc ?p mod capacity b = Suc ?p" using pos by simp
    have "chronological (push_result t b) = drop (Suc ?p) ?xs @ take ?p ?xs @ [t]"
      using full pos m \<open>\<not> length (buffer b) < capacity b\<close>
      by (simp add: chronological_def push_result_def upd_conv_take_nth_drop take_Suc_conv_app_nth)
    then show ?thesis using tl_eq \<open>\<not> length (buffer b) < capacity b\<close> by simp
  qed
qed

lemma buffer_inv_init: "0 < cap \<Longrightarrow> buffer_inv (PrioritizedReplayBuffer_init cap a)"
  by (simp add: buffer_inv_def PrioritizedReplayBuffer_init_def)

lemma length_chronological: "length (chronological b) = length (buffer b)"
  by (auto simp: chronological_def)

lemma push_result_capacity: "capacity (push_result t b) = capacity b"
  by (simp add: push_result_def)

lemma drop_window:
  "drop (length (drop (length X - c) X @ ts) - c) (drop (length X - c) X @ ts) =
   drop (length (X @ ts) - c) (X @ ts)"
proof -
  have "drop (length X - c) X @ ts = drop (length X - c) (X @ ts)" by simp
  moreover have "length (drop (length X - c) X @ ts) - c + (length X - c) = length (X @ ts) - c"
    by (cases "length X \<le> c") auto
  ultimately show ?thesis by (metis drop_drop)
qed

lemma push_all_chronological:
  assumes "buffer_inv b"
  shows "\<exists>b'. push_all ts b = Inr b' \<and> buffer_inv b' \<and> capacity b' = capacity b \<and>
           chronological b' =
             drop (length (chronological b @ ts) - capacity b) (chronological b @ ts)"
  using assms
proof (induction ts arbitrary: b)
  case Nil
  then show ?case by (simp add: length_chronological buffer_inv_def)
next
  case (Cons t ts)
  let ?b1 = "push_result t b"
  have inv1: "buffer_inv ?b1" using Cons.prems by (rule push_result_inv)
  from Cons.IH[OF inv1] obtain b' where b':
    "push_all ts ?b1 = Inr b'" "buffer_inv b'" "capacity b' = capacity ?b1"
    "chronological b' = drop (length (chronological ?b1 @ ts) - capacity ?b1) (chronological ?b1 @ ts)"
    by blast
  have len: "length (buffer b) \<le> capacity b" and cap: "0 < capacity b"
    using Cons.prems by (auto simp: buffer_inv_def)
  have c1: "chronological ?b1 = drop (Suc (length (buffer b)) - capacity b) (chronological b @ [t])"
  proof (cases "length (buffer b) < capacity b")
    case True
    then show ?thesis using chronological_push_result[OF Cons.prems, of t] by simp
  next
    case False
    then have full: "length (buffer b) = capacity b" using len by simp
    then have "chronological b \<noteq> []" using cap length_chronological[of b] by auto
    then show ?thesis using chronological_push_result[OF Cons.prems, of t] False full
      by (cases "chronological b") (simp_all add: drop_Suc)
  qed
  have "chronological b' =
          drop (length (chronological b @ t # ts) - capacity b) (chronological b @ t # ts)"
    unfolding b'(4) c1 push_result_capacity
    using drop_window[of "chronological b @ [t]" "capacity b" ts]
    by (simp add: length_chronological)
  then show ?case using b' Cons.prems by (simp add: push_eq push_result_capacity)
qed

text \<open>
  Claim C5. A \<^verbatim>\<open>push\<close> on a buffer in a state the class produces raises nothing and
  returns the buffer with the transition stored at the write cursor; the new entry's priority
  is the maximum priority among the held entries, or \<open>1\<close> when nothing is held; the other
  priorities are unchanged; while the buffer is filling the transition is appended, and once
  it is full the oldest held transition (the head of the chronological order, see
  \<open>push_all_chronological\<close>) is the one replaced; the cursor advances modulo the capacity.
\<close>

theorem push_spec:
  assumes "buffer_inv b"
  shows "\<exists>b'. push t b = Inr b' \<and> buffer_inv b' \<and>
           buffer b' ! position b = t \<and>
           priorities b' ! position b =
             (if buffer b = [] then 1 else Max (set (take (length (buffer b)) (priorities b)))) \<and>
           buffer b' = (if length (buffer b) < capacity b then buffer b @ [t]
                        else (buffer b)[position b := t]) \<and>
           chronological b' = (if length (buffer b) < capacity b then chronological b @ [t]
                               else tl (chronological b) @ [t]) \<and>
           priorities b' = (priorities b)[position b :=
             (if buffer b = [] then 1 else Max (set (take (length (buffer b)) (priorities b))))] \<and>
           position b' = (position b + 1) mod capacity b \<and>
           capacity b' = capacity b \<and> alpha b' = alpha b"
proof -
  have pos: "position b < capacity b" "position b \<le> length (buffer b)"
    "length (priorities b) = capacity b"
    "\<not> length (buffer b) < capacity b \<Longrightarrow> position b < length (buffer b)"
    using assms by (auto simp: buffer_inv_def split: if_splits)
  have "buffer (push_result t b) ! position b = t"
    using pos assms by (auto simp: push_result_def buffer_inv_def nth_append split: if_splits)
  moreover have "priorities (push_result t b) ! position b =
      (if buffer b = [] then 1 else Max (set (take (length (buffer b)) (priorities b))))"
    using pos by (simp add: push_result_def)
  ultimately show ?thesis
    using push_eq[OF assms, of t] push_result_inv[OF assms, of t]
      chronological_push_result[OF assms, of t]
    by (simp add: push_result_def)
qed

theorem push_spec_witness:
  "buffer_inv \<lparr>capacity = 2, alpha = 0.6, priorities = [1, 3], buffer = [tr 1, tr 2], position = 1\<rparr> \<and>
   (\<exists>b'. push (tr 3) \<lparr>capacity = 2, alpha = 0.6, priorities = [1, 3], buffer = [tr 1, tr 2], position = 1\<rparr> = Inr b' \<and>
      buffer b' = [tr 1, tr 3] \<and> chronological b' = [tr 1, tr 3] \<and> priorities b' = [1, 3] \<and> position b' = 0) \<and>
   buffer_inv \<lparr>capacity = 2, alpha = 0.6, priorities = [1/2, 0], buffer = [tr 1], position = 1\<rparr> \<and>
   (\<exists>b'. push (tr 2) \<lparr>capacity = 2, alpha = 0.6, priorities = [1/2, 0], buffer = [tr 1], position = 1\<rparr> = Inr b' \<and>
      buffer b' = [tr 1, tr 2] \<and> priorities b' = [1/2, 1/2] \<and> position b' = 0)"
proof -
  let ?full = "\<lparr>capacity = 2, alpha = 0.6, priorities = [1, 3], buffer = [tr 1, tr 2], position = 1\<rparr>"
  let ?part = "\<lparr>capacity = 2, alpha = 0.6, priorities = [1/2, 0], buffer = [tr 1], position = 1\<rparr>"
  have h1: "buffer_inv ?full" by (simp add: buffer_inv_def less_Suc_eq numeral_2_eq_2)
  have h2: "buffer_inv ?part" by (simp add: buffer_inv_def less_Suc_eq numeral_2_eq_2)
  from push_spec[OF h1, of "tr 3"] obtain b1 where b1:
    "push (tr 3) ?full = Inr b1" "buffer b1 = [tr 1, tr 3]" "chronological b1 = [tr 1, tr 3]"
    "priorities b1 = [1, 3]" "position b1 = 0"
    by (auto simp: chronological_def)
  from push_spec[OF h2, of "tr 2"] obtain b2 where b2:
    "push (tr 2) ?part = Inr b2" "buffer b2 = [tr 1, tr 2]"
    "priorities b2 = [1/2, 1/2]" "position b2 = 0"
    by (auto simp: chronological_def)
  show ?thesis using h1 h2 b1 b2 by simp
qed

subsection \<open>The replay buffer: sample\<close>

lemma sample_empty: "buffer b = [] \<Longrightarrow> sample b bsz beta us = Inl (ValueError ''Cannot sample from empty buffer'')"
  by (simp add: sample_def)

lemma length_cumsum_from: "length (cumsum_from acc xs) = length xs"
  by (induction xs arbitrary: acc) auto

lemma last_cumsum_from: "xs \<noteq> [] \<Longrightarrow> last (cumsum_from acc xs) = acc + sum_list xs"
proof (induction xs arbitrary: acc)
  case Nil
  then show ?case by simp
next
  case (Cons x xs)
  then show ?case by (cases xs) (auto simp: algebra_simps)
qed

lemma cumsum_from_nth:
  "i < length xs \<Longrightarrow> cumsum_from acc xs ! i = acc + sum_list (take (Suc i) xs)"
proof (induction xs arbitrary: acc i)
  case Nil
  then show ?case by simp
next
  case (Cons x xs)
  then show ?case by (cases i) (auto simp: algebra_simps)
qed

lemma searchsorted_right_less:
  assumes "cdf \<noteq> []" "u < last cdf"
  shows "searchsorted_right cdf u < length cdf"
proof -
  have "last cdf \<in> set cdf" using assms(1) by simp
  moreover have "\<not> last cdf \<le> u" using assms(2) by simp
  ultimately show ?thesis
    unfolding searchsorted_right_def by (rule length_filter_less)
qed

text \<open>The cumulative distribution that \<^verbatim>\<open>np.random.choice\<close> searches.\<close>

lemma np_random_choice_ok:
  assumes "0 < n" "length p = n" "None \<notin> set p" "\<forall>x \<in> set p. 0 \<le> the x"
    "sum_list (map the p) = 1" "0 \<le> sz"
  shows "np_random_choice n sz p us =
           Inr (map (\<lambda>k. searchsorted_right (cumsum (map the p)) (us k)) [0..<nat sz])"
proof -
  have ne: "map the p \<noteq> []" using assms by auto
  have "last (cumsum (map the p)) = 1"
    using last_cumsum_from[OF ne, of 0] assms(5) by (simp add: cumsum_def)
  then show ?thesis using assms
    by (auto simp: np_random_choice_def Let_def)
qed

lemma np_random_choice_range:
  assumes "0 < n" "length p = n" "None \<notin> set p" "\<forall>x \<in> set p. 0 \<le> the x"
    "sum_list (map the p) = 1" "0 \<le> sz" "\<forall>k. us k < 1"
  shows "\<exists>indices. np_random_choice n sz p us = Inr indices \<and> length indices = nat sz \<and>
           (\<forall>i \<in> set indices. i < n)"
proof -
  have ne: "map the p \<noteq> []" using assms by auto
  have l: "last (cumsum (map the p)) = 1"
    using last_cumsum_from[OF ne, of 0] assms(5) by (simp add: cumsum_def)
  have cne: "cumsum (map the p) \<noteq> []" using ne length_cumsum_from[of 0 "map the p"]
    by (auto simp: cumsum_def)
  have "searchsorted_right (cumsum (map the p)) (us k) < n" for k
    using searchsorted_right_less[OF cne, of "us k"] l assms(2,7) length_cumsum_from[of 0 "map the p"]
    by (simp add: cumsum_def)
  then show ?thesis
    unfolding np_random_choice_ok[OF assms(1-6)] by auto
qed

lemma sum_list_pos_real: "xs \<noteq> [] \<Longrightarrow> \<forall>x \<in> set xs. (0::real) < x \<Longrightarrow> 0 < sum_list xs"
proof (induction xs)
  case Nil
  then show ?case by simp
next
  case (Cons x xs)
  then show ?case by (cases xs) (auto intro: add_pos_pos)
qed

lemma sum_list_divide_real: "sum_list (map (\<lambda>x. x / s) xs) = sum_list xs / (s::real)"
  by (induction xs) (auto simp: add_divide_distrib)

lemma probabilities_ok:
  assumes "buffer b \<noteq> []" "length (buffer b) \<le> length (priorities b)" "held_positive b"
  shows "length (probabilities b) = length (buffer b)"
    and "None \<notin> set (probabilities b)"
    and "\<forall>x \<in> set (probabilities b). 0 < the x"
    and "sum_list (map the (probabilities b)) = 1"
proof -
  let ?n = "length (buffer b)"
  let ?q = "map (\<lambda>p. p powr alpha b) (take ?n (priorities b))"
  have pos: "\<forall>p \<in> set (take ?n (priorities b)). 0 < p"
    using assms(2,3) by (auto simp: held_positive_def in_set_conv_nth)
  then have pw: "map (\<lambda>p. np_power p (alpha b)) (take ?n (priorities b)) = map Some ?q"
    by (auto simp: np_power_def)
  have qne: "?q \<noteq> []" using assms(1,2) by auto
  have qpos: "\<forall>x \<in> set ?q. 0 < x" using pos by auto
  have s: "0 < sum_list ?q" using sum_list_pos_real[OF qne qpos] .
  have the_q: "map the (map Some ?q) = ?q" by (simp add: comp_def)
  have pr: "probabilities b = map (\<lambda>x. Some (x / sum_list ?q)) ?q"
    unfolding probabilities_def pw np_normalize_def the_q using s by (auto simp: comp_def)
  show "length (probabilities b) = ?n" using assms(2) by (simp add: pr)
  show "None \<notin> set (probabilities b)" by (auto simp: pr)
  show "\<forall>x \<in> set (probabilities b). 0 < the x" unfolding pr using qpos s by auto
  have "map the (probabilities b) = map (\<lambda>x. x / sum_list ?q) ?q"
    unfolding pr by (simp add: comp_def)
  then show "sum_list (map the (probabilities b)) = 1"
    using s sum_list_divide_real[of "sum_list ?q" ?q] by simp
qed

text \<open>
  Claim C10. On a buffer that holds at least one transition, each with a positive priority,
  \<^verbatim>\<open>sample\<close> raises nothing for any requested \<open>batch_size \<ge> 1\<close>, also one above the number of
  held transitions: it returns \<open>batch_size\<close> transitions, \<open>batch_size\<close> indices, each below the
  number of held transitions, the transitions being those at the indices, and
  \<open>batch_size\<close> weights. The uniform variates that \<^verbatim>\<open>np.random.choice\<close> draws lie in \<open>[0, 1)\<close>.
\<close>

theorem sample_nonempty:
  assumes "buffer b \<noteq> []" and "length (buffer b) \<le> length (priorities b)"
    and "held_positive b" and "1 \<le> bsz" and "\<forall>k. 0 \<le> us k \<and> us k < 1"
  shows "\<exists>batch indices weights.
           sample b bsz beta us = Inr (batch, indices, weights) \<and>
           length batch = nat bsz \<and> length indices = nat bsz \<and>
           length weights = nat bsz \<and>
           (\<forall>i \<in> set indices. i < length (buffer b)) \<and>
           batch = map (\<lambda>i. buffer b ! i) indices"
proof -
  let ?n = "length (buffer b)"
  note pr = probabilities_ok[OF assms(1-3)]
  have n: "0 < ?n" using assms(1) by simp
  have nonneg: "\<forall>x \<in> set (probabilities b). 0 \<le> the x" using pr(3) by (auto intro: less_imp_le)
  have sz: "0 \<le> bsz" using assms(4) by simp
  have us: "\<forall>k. us k < 1" using assms(5) by simp
  from np_random_choice_range[OF n pr(1) pr(2) nonneg pr(4) sz us]
  obtain indices where ind: "np_random_choice ?n bsz (probabilities b) us = Inr indices"
    "length indices = nat bsz" "\<forall>i \<in> set indices. i < ?n" by blast
  have "indices \<noteq> []" using ind(2) assms(4) by auto
  then show ?thesis using ind assms(1)
    by (simp add: sample_def Let_def probabilities_def[symmetric])
qed

theorem sample_nonempty_witness:
  "buffer \<lparr>capacity = 4, alpha = 1, priorities = [1, 3, 0, 0], buffer = [tr 1, tr 2], position = 2\<rparr> \<noteq> [] \<and>
   held_positive \<lparr>capacity = 4, alpha = 1, priorities = [1, 3, 0, 0], buffer = [tr 1, tr 2], position = 2\<rparr> \<and>
   (\<forall>k. 0 \<le> (if k = 0 then 0 else 1/2 :: real) \<and> (if k = 0 then 0 else 1/2 :: real) < 1) \<and>
   (\<exists>batch indices weights.
      sample \<lparr>capacity = 4, alpha = 1, priorities = [1, 3, 0, 0], buffer = [tr 1, tr 2], position = 2\<rparr>
        3 0 (\<lambda>k. if k = 0 then 0 else 1/2) = Inr (batch, indices, weights) \<and>
      indices = [0, 1, 1] \<and> batch = [tr 1, tr 2, tr 2] \<and> length weights = 3)"
proof -
  let ?b = "\<lparr>capacity = 4, alpha = 1, priorities = [1, 3, 0, 0], buffer = [tr 1, tr 2], position = 2\<rparr>"
  let ?us = "\<lambda>k::nat. if k = 0 then 0 else 1/2 :: real"
  have h1: "buffer ?b \<noteq> []" by simp
  have h2: "length (buffer ?b) \<le> length (priorities ?b)" by simp
  have h3: "held_positive ?b" by (simp add: held_positive_def less_Suc_eq numeral_2_eq_2)
  have h4: "1 \<le> (3::int)" by simp
  have h5: "\<forall>k. 0 \<le> ?us k \<and> ?us k < 1" by simp
  from sample_nonempty[OF h1 h2 h3 h4 h5, of 0]
  obtain batch indices weights where s: "sample ?b 3 0 ?us = Inr (batch, indices, weights)"
    "length weights = nat 3" by blast
  have "sample ?b 3 0 ?us = Inr ([tr 1, tr 2, tr 2], [0, 1, 1], [1, 1, 1])"
    by (simp add: sample_def np_normalize_def np_power_def np_random_choice_def cumsum_def
      searchsorted_right_def Let_def upt_rec)
  with s have "indices = [0, 1, 1]" "batch = [tr 1, tr 2, tr 2]" by simp_all
  then show ?thesis using h1 h3 h5 s by simp
qed

lemma cumsum_from_ge:
  "\<forall>x \<in> set xs. 0 \<le> x \<Longrightarrow> c \<in> set (cumsum_from acc xs) \<Longrightarrow> acc \<le> c"
proof (induction xs arbitrary: acc)
  case Nil
  then show ?case by simp
next
  case (Cons x xs)
  then show ?case by fastforce
qed

lemma searchsorted_right_positive:
  assumes "\<forall>x \<in> set xs. 0 \<le> x" "acc \<le> u" "u < acc + sum_list xs"
  shows "searchsorted_right (cumsum_from acc xs) u < length xs \<and>
         0 < xs ! searchsorted_right (cumsum_from acc xs) u"
  using assms
proof (induction xs arbitrary: acc)
  case Nil
  then show ?case by simp
next
  case (Cons x xs)
  show ?case
  proof (cases "acc + x \<le> u")
    case True
    have "searchsorted_right (cumsum_from (acc + x) xs) u < length xs \<and>
          0 < xs ! searchsorted_right (cumsum_from (acc + x) xs) u"
      using Cons.prems True by (intro Cons.IH) (auto simp: algebra_simps)
    then show ?thesis using True by (simp add: searchsorted_right_def)
  next
    case False
    have "\<not> c \<le> u" if "c \<in> set (cumsum_from (acc + x) xs)" for c
      using cumsum_from_ge[of xs c "acc + x"] that Cons.prems(1) False by auto
    then have "filter (\<lambda>c. c \<le> u) (cumsum_from (acc + x) xs) = []"
      by (auto simp: filter_empty_conv)
    then show ?thesis using False Cons.prems by (simp add: searchsorted_right_def)
  qed
qed

lemma np_random_choice_positive:
  assumes "0 < n" "length p = n" "None \<notin> set p" "\<forall>x \<in> set p. 0 \<le> the x"
    "sum_list (map the p) = 1" "0 \<le> sz" "\<forall>k. 0 \<le> us k \<and> us k < 1"
    "np_random_choice n sz p us = Inr indices" "i \<in> set indices"
  shows "i < n \<and> 0 < the (p ! i)"
proof -
  from assms(8,9) np_random_choice_ok[OF assms(1-6), of us]
  obtain k where k: "i = searchsorted_right (cumsum (map the p)) (us k)" by auto
  have nn: "\<forall>x \<in> set (map the p). 0 \<le> x" using assms(4) by auto
  have "i < length (map the p) \<and> 0 < map the p ! i"
    unfolding k cumsum_def
    using assms(5,7) by (intro searchsorted_right_positive[OF nn]) auto
  then show ?thesis using assms(2) by auto
qed

subsection \<open>The agent: the insufficient-data guard\<close>

text \<open>
  Claim C4. When the buffer holds fewer than \<open>batch_size\<close> transitions, \<^verbatim>\<open>optimize_model\<close>
  returns \<open>0.0\<close>, raises nothing and leaves the agent as it was: replay buffer, priorities,
  write cursor, both networks, optimizer state, epsilon, step counter (and the log) are those
  of the agent before the call.
\<close>

theorem optimize_model_insufficient:
  assumes "int (length (buffer (memory a))) < batch_size (config a)"
  shows "optimize_model opt_step us a = (Inr 0, a)"
  using assms by (simp add: optimize_model_def)

theorem optimize_model_insufficient_witness:
  "int (length (buffer (memory (small_agent 64 1000 (PrioritizedReplayBuffer_init 4 1))))) <
     batch_size (config (small_agent 64 1000 (PrioritizedReplayBuffer_init 4 1))) \<and>
   optimize_model (\<lambda>s net l. (s, net)) (\<lambda>k. 0) (small_agent 64 1000 (PrioritizedReplayBuffer_init 4 1)) =
     (Inr 0, small_agent 64 1000 (PrioritizedReplayBuffer_init 4 1))"
proof -
  let ?a = "small_agent 64 1000 (PrioritizedReplayBuffer_init 4 1)"
  have h: "int (length (buffer (memory ?a))) < batch_size (config ?a)"
    by (simp add: small_agent_def PrioritizedReplayBuffer_init_def DQNConfig_default_def)
  show ?thesis using h optimize_model_insufficient[OF h, of "\<lambda>s net l. (s, net)" "\<lambda>k. 0"] by simp
qed

subsection \<open>Sampling from an empty buffer\<close>

lemma sample_not_empty_error:
  "buffer b \<noteq> [] \<Longrightarrow> sample b n beta us \<noteq> Inl (ValueError ''Cannot sample from empty buffer'')"
  by (auto simp: sample_def np_random_choice_def Let_def split: sum.splits if_splits)

lemma update_priorities_not_empty_error:
  "fst (update_priorities idx ps b) \<noteq> Some (ValueError ''Cannot sample from empty buffer'')"
  by (induction idx ps b rule: update_priorities.induct) (auto split: option.splits)

lemma forward_batch_error:
  "forward_batch net xs = Inl e \<Longrightarrow> \<exists>s. e = RuntimeError s"
proof (induction xs arbitrary: e)
  case Nil
  then show ?case by simp
next
  case (Cons x xs)
  have f: "forward n y = Inl e' \<Longrightarrow> \<exists>s. e' = RuntimeError s" for n y e'
  proof (induction n arbitrary: y)
    case Nil
    then show ?case by simp
  next
    case (Cons l ls)
    then show ?case by (cases l) (auto split: sum.splits if_splits)
  qed
  from Cons show ?case by (auto split: sum.splits dest: f)
qed

lemma argmax_rows_error: "argmax_rows rs = Inl e \<Longrightarrow> \<exists>s. e = IndexError s"
  by (induction rs arbitrary: e) (auto simp: argmax_def split: sum.splits list.splits)

lemma gather_error: "gather rows idx = Inl e \<Longrightarrow> \<exists>s. e = RuntimeError s"
  by (induction rows idx arbitrary: e rule: gather.induct) (auto split: sum.splits if_splits)

lemma batch_values_not_empty_error:
  "batch_values policy target g batch \<noteq> Inl (ValueError ''Cannot sample from empty buffer'')"
proof
  assume a: "batch_values policy target g batch = Inl (ValueError ''Cannot sample from empty buffer'')"
  then show False
    unfolding batch_values_def double_q_targets_def current_q_values_def stack_def
    by (auto split: sum.splits if_splits
        dest: forward_batch_error argmax_rows_error gather_error)
qed

lemma commit_not_empty_error:
  "fst (commit opt_step a indices weights sb ab expected current) \<noteq>
     Inl (ValueError ''Cannot sample from empty buffer'')"
  by (simp add: commit_def lookup_global_def module_globals_def)

text \<open>
  Claim C3, as amended. On a buffer that holds no transition \<^verbatim>\<open>sample\<close> raises the error of an
  empty buffer (\<^verbatim>\<open>ValueError("Cannot sample from empty buffer")\<close>) for every \<open>batch_size\<close> and
  \<open>beta\<close>; and for every configuration with \<open>batch_size \<ge> 1\<close>, \<^verbatim>\<open>optimize_model\<close> never ends
  with that error, since it returns at its guard when the buffer is empty.
\<close>

theorem empty_buffer_error:
  "(buffer b = [] \<longrightarrow> sample b bsz beta us = Inl (ValueError ''Cannot sample from empty buffer'')) \<and>
   (1 \<le> batch_size (config a) \<longrightarrow>
      fst (optimize_model opt_step us a) \<noteq> Inl (ValueError ''Cannot sample from empty buffer''))"
proof (intro conjI impI)
  assume "buffer b = []"
  then show "sample b bsz beta us = Inl (ValueError ''Cannot sample from empty buffer'')"
    by (simp add: sample_def)
next
  assume bs: "1 \<le> batch_size (config a)"
  show "fst (optimize_model opt_step us a) \<noteq> Inl (ValueError ''Cannot sample from empty buffer'')"
  proof (cases "int (length (buffer (memory a))) < batch_size (config a)")
    case True
    then show ?thesis by (simp add: optimize_model_def)
  next
    case False
    then have ne: "buffer (memory a) \<noteq> []" using bs by auto
    show ?thesis
    proof (cases "sample (memory a) (batch_size (config a)) (priority_beta (config a)) us")
      case (Inl e)
      then show ?thesis using False sample_not_empty_error[OF ne]
        by (auto simp: optimize_model_def)
    next
      case (Inr r)
      obtain batch indices weights where r: "r = (batch, indices, weights)" by (cases r) auto
      show ?thesis
      proof (cases "batch_values (policy_net a) (target_net a) (gamma (config a)) batch")
        case (Inl e)
        then show ?thesis using False Inr r batch_values_not_empty_error[of "policy_net a" "target_net a" "gamma (config a)" batch]
          by (auto simp: optimize_model_def)
      next
        case bv: (Inr v)
        obtain sb ab ex cu where v: "v = (sb, ab, ex, cu)" by (cases v) auto
        show ?thesis using False Inr r bv v commit_not_empty_error[of opt_step a indices weights sb ab ex cu]
          by (simp add: optimize_model_def)
      qed
    qed
  qed
qed

theorem empty_buffer_error_witness:
  "buffer (PrioritizedReplayBuffer_init 4 1) = [] \<and>
   sample (PrioritizedReplayBuffer_init 4 1) 2 (4 / 10) (\<lambda>k. 0) =
     Inl (ValueError ''Cannot sample from empty buffer'') \<and>
   1 \<le> batch_size (config (small_agent 2 1000 (PrioritizedReplayBuffer_init 4 1))) \<and>
   optimize_model (\<lambda>s net l. (s, net)) (\<lambda>k. 0) (small_agent 2 1000 (PrioritizedReplayBuffer_init 4 1)) =
     (Inr 0, small_agent 2 1000 (PrioritizedReplayBuffer_init 4 1))"
proof -
  let ?b = "PrioritizedReplayBuffer_init 4 1"
  let ?a = "small_agent 2 1000 ?b"
  have h1: "buffer ?b = []" by (simp add: PrioritizedReplayBuffer_init_def)
  have h2: "1 \<le> batch_size (config ?a)" by (simp add: small_agent_def)
  have "optimize_model (\<lambda>s net l. (s, net)) (\<lambda>k. 0) ?a = (Inr 0, ?a)"
    by (simp add: optimize_model_def small_agent_def PrioritizedReplayBuffer_init_def)
  then show ?thesis
    using h1 h2 empty_buffer_error[of ?b 2 "4 / 10" "\<lambda>k. 0" ?a "\<lambda>s net l. (s, net)"] by simp
qed

text \<open>
  Without the bound on \<open>batch_size\<close> the second part fails: with \<open>batch_size = 0\<close> an empty
  buffer passes the guard (\<open>0 < 0\<close> is false) and \<^verbatim>\<open>sample\<close> raises inside \<^verbatim>\<open>optimize_model\<close>.
\<close>

theorem empty_buffer_error_counterexample:
  "fst (optimize_model (\<lambda>s net l. (s, net)) (\<lambda>k. 0) (small_agent 0 1000 (PrioritizedReplayBuffer_init 4 1))) =
     Inl (ValueError ''Cannot sample from empty buffer'')"
  by (simp add: optimize_model_def small_agent_def PrioritizedReplayBuffer_init_def sample_def)

subsection \<open>Action selection\<close>

lemma argmax_from_first_max:
  assumes "ys = pre @ xs" "length pre = i" "best < i" "v = ys ! best"
    "\<forall>j < i. ys ! j \<le> v" "\<forall>j < best. ys ! j < v"
  shows "argmax_from best v i xs < length ys \<and>
         (\<forall>j < length ys. ys ! j \<le> ys ! argmax_from best v i xs) \<and>
         (\<forall>j < argmax_from best v i xs. ys ! j < ys ! argmax_from best v i xs)"
  using assms
proof (induction xs arbitrary: best v i pre)
  case Nil
  then show ?case by auto
next
  case (Cons x xs)
  have yi: "ys ! i = x" using Cons.prems(1,2) by (simp add: nth_append)
  show ?case
  proof (cases "v < x")
    case True
    have "argmax_from i x (Suc i) xs < length ys \<and>
         (\<forall>j < length ys. ys ! j \<le> ys ! argmax_from i x (Suc i) xs) \<and>
         (\<forall>j < argmax_from i x (Suc i) xs. ys ! j < ys ! argmax_from i x (Suc i) xs)"
    proof (rule Cons.IH[of "pre @ [x]"])
      show "ys = (pre @ [x]) @ xs" using Cons.prems(1) by simp
      show "length (pre @ [x]) = Suc i" using Cons.prems(2) by simp
      show "i < Suc i" by simp
      show "x = ys ! i" using yi by simp
      show "\<forall>j < Suc i. ys ! j \<le> x" using Cons.prems(5) True yi by (auto simp: less_Suc_eq)
      show "\<forall>j < i. ys ! j < x" using Cons.prems(5) True by force
    qed
    then show ?thesis using True by simp
  next
    case False
    have "argmax_from best v (Suc i) xs < length ys \<and>
         (\<forall>j < length ys. ys ! j \<le> ys ! argmax_from best v (Suc i) xs) \<and>
         (\<forall>j < argmax_from best v (Suc i) xs. ys ! j < ys ! argmax_from best v (Suc i) xs)"
    proof (rule Cons.IH[of "pre @ [x]"])
      show "ys = (pre @ [x]) @ xs" using Cons.prems(1) by simp
      show "length (pre @ [x]) = Suc i" using Cons.prems(2) by simp
      show "best < Suc i" using Cons.prems(3) by simp
      show "v = ys ! best" using Cons.prems(4) .
      show "\<forall>j < Suc i. ys ! j \<le> v" using Cons.prems(5) False yi by (auto simp: less_Suc_eq)
      show "\<forall>j < best. ys ! j < v" using Cons.prems(6) .
    qed
    then show ?thesis using False by simp
  qed
qed

lemma argmax_first_max:
  assumes "q \<noteq> []"
  shows "\<exists>i. argmax q = Inr i \<and> i < length q \<and> (\<forall>j < length q. q ! j \<le> q ! i) \<and>
           (\<forall>j < i. q ! j < q ! i)"
proof -
  obtain x xs where q: "q = x # xs" using assms by (cases q) auto
  have "argmax_from 0 x 1 xs < length q \<and>
        (\<forall>j < length q. q ! j \<le> q ! argmax_from 0 x 1 xs) \<and>
        (\<forall>j < argmax_from 0 x 1 xs. q ! j < q ! argmax_from 0 x 1 xs)"
    by (rule argmax_from_first_max[of q "[x]"]) (auto simp: q)
  then show ?thesis by (simp add: argmax_def q)
qed

lemma layer_forward_shape:
  "linear_shape n_in n_out l \<Longrightarrow> length x = n_in \<Longrightarrow>
     \<exists>y. layer_forward l x = Inr y \<and> length y = n_out"
  by (cases l) auto

lemma forward_shape:
  assumes "network_shape cfg net" "int (length st) = state_dim cfg"
  shows "\<exists>q. forward net st = Inr q \<and> length q = nat (action_dim cfg)"
proof -
  obtain l1 l2 l3 where net: "net = [l1, ReLU, l2, ReLU, l3]"
    using assms(1) by (elim network_shape.elims) auto
  have s: "linear_shape (nat (state_dim cfg)) (nat (hidden_dim cfg)) l1"
    "linear_shape (nat (hidden_dim cfg)) (nat (hidden_dim cfg)) l2"
    "linear_shape (nat (hidden_dim cfg)) (nat (action_dim cfg)) l3"
    using assms(1) by (auto simp: net)
  have len: "length st = nat (state_dim cfg)" using assms(2) by auto
  from layer_forward_shape[OF s(1) len] obtain y1 where
    y1: "layer_forward l1 st = Inr y1" "length y1 = nat (hidden_dim cfg)" by blast
  have r1: "length (map (max 0) y1) = nat (hidden_dim cfg)" using y1 by simp
  from layer_forward_shape[OF s(2) r1] obtain y2 where
    y2: "layer_forward l2 (map (max 0) y1) = Inr y2" "length y2 = nat (hidden_dim cfg)" by blast
  have r2: "length (map (max 0) y2) = nat (hidden_dim cfg)" using y2 by simp
  from layer_forward_shape[OF s(3) r2] obtain y3 where
    y3: "layer_forward l3 (map (max 0) y2) = Inr y3" "length y3 = nat (action_dim cfg)" by blast
  show ?thesis using y1 y2 y3 by (simp add: net)
qed

lemma DQNetwork_init_shape:
  "DQNetwork_init cfg w bs = Inr net \<Longrightarrow> network_shape cfg net"
  by (auto simp: DQNetwork_init_def linear_init_def split: if_splits)

text \<open>
  The body of \<^verbatim>\<open>select_action\<close> in the first class statement does what the claim says: for an
  agent whose policy network has the dimensions of its configuration, with at least one
  action, and a state vector of \<open>state_dim\<close> entries, it raises nothing and returns an integer
  of \<open>[0, action_dim)\<close>; when the draw \<open>u\<close> of \<^verbatim>\<open>random.random()\<close> is below epsilon the result is
  the index drawn by \<^verbatim>\<open>random.randrange(action_dim)\<close>, and otherwise it is the argmax of the
  policy network's outputs for the state, the lowest index among the maximal entries.
\<close>

lemma select_action_body_range:
  assumes "network_shape (config a) (policy_net a)"
    and "int (length st) = state_dim (config a)"
    and "0 < action_dim (config a)"
  shows "\<exists>act. select_action_body a st u raw = Inr act \<and> 0 \<le> act \<and> act < action_dim (config a) \<and>
           (if u < epsilon a
            then act = int raw mod action_dim (config a) \<and>
                 (\<forall>k. 0 \<le> k \<and> k < action_dim (config a) \<longrightarrow> select_action_body a st u (nat k) = Inr k)
            else \<exists>q. forward (policy_net a) st = Inr q \<and> length q = nat (action_dim (config a)) \<and>
                   (\<forall>j < length q. q ! j \<le> q ! nat act) \<and> (\<forall>j < nat act. q ! j < q ! nat act))"
proof (cases "u < epsilon a")
  case True
  then show ?thesis using assms(3) by (auto simp: select_action_body_def randrange_def)
next
  case False
  from forward_shape[OF assms(1,2)] obtain q where
    q: "forward (policy_net a) st = Inr q" "length q = nat (action_dim (config a))" by blast
  then have "q \<noteq> []" using assms(3) by auto
  from argmax_first_max[OF this] obtain i where
    i: "argmax q = Inr i" "i < length q" "\<forall>j < length q. q ! j \<le> q ! i" "\<forall>j < i. q ! j < q ! i"
    by blast
  show ?thesis using False q i by (auto simp: select_action_body_def)
qed

lemma select_action_body_example:
  "select_action_body (small_agent 1 1 (PrioritizedReplayBuffer_init 4 1)) [3] (1 / 2) 4 = Inr 0 \<and>
   select_action_body ((small_agent 1 1 (PrioritizedReplayBuffer_init 4 1))\<lparr>epsilon := 0\<rparr>) [3] (1 / 2) 4 = Inr 1"
  by (simp add: select_action_body_def randrange_def small_agent_def small_net_def argmax_def)

text \<open>
  Claim C2 (the code departs from it). The class that the module binds to \<^verbatim>\<open>DQNAgent\<close> is the
  one of the second class statement, which defines \<^verbatim>\<open>__init__\<close> and \<^verbatim>\<open>optimize_model\<close> only:
  for every agent, every state vector and every random draw, \<^verbatim>\<open>select_action\<close> raises
  \<^verbatim>\<open>AttributeError\<close> and returns no action.
\<close>

theorem select_action_raises:
  "select_action a st u raw = Inl (AttributeError ''select_action'')"
  by (simp add: select_action_def DQNAgent_methods_def DQNAgent_statements_def)

subsection \<open>The target network\<close>

lemma commit_raises:
  "commit opt_step a indices weights sb ab ex cu = (Inl (NameError ''F''), a)"
  by (simp add: commit_def lookup_global_def module_globals_def)

lemma optimize_model_unchanged: "snd (optimize_model opt_step us a) = a"
  by (auto simp: optimize_model_def commit_raises split: sum.splits prod.splits)

lemma optimize_model_result:
  "fst (optimize_model opt_step us a) = Inr l \<Longrightarrow>
     l = 0 \<and> int (length (buffer (memory a))) < batch_size (config a)"
  by (auto simp: optimize_model_def commit_raises split: sum.splits prod.splits if_splits)





subsection \<open>The Double-Q targets\<close>

lemma expected_q_values_nth:
  assumes "i < length next_state_values" "j < length reward_batch"
    "length done_batch = length reward_batch"
  shows "expected_q_values reward_batch done_batch g next_state_values ! i ! j =
           reward_batch ! j + (1 - done_batch ! j) * g * next_state_values ! i"
  using assms by (simp add: expected_q_values_def)

lemma expected_q_values_shape:
  "length (expected_q_values reward_batch done_batch g next_state_values) = length next_state_values"
  "row \<in> set (expected_q_values reward_batch done_batch g next_state_values) \<Longrightarrow>
     length row = min (length reward_batch) (length done_batch)"
  by (auto simp: expected_q_values_def)

lemma expected_q_values_single:
  "expected_q_values [r] [d] g [v] = [[r + (1 - d) * g * v]]"
  by (simp add: expected_q_values_def)

text \<open>
  Claim C1 (the code departs from it). For a batch of the terminal transition (reward \<open>1\<close>)
  and a running one (reward \<open>0\<close>) and \<open>gamma = 0.99\<close>, the targets that \<^verbatim>\<open>optimize_model\<close>
  computes are a \<open>2 \<times> 2\<close> array: row \<open>i\<close>, the row compared with the current estimate of
  transition \<open>i\<close>, holds \<open>reward[j] + (1 - done[j]) * gamma * value[i]\<close> for both transitions
  \<open>j\<close>. The row of the terminal transition is \<open>[1, 9.9]\<close>, not the single target \<open>1\<close>, and the
  row of the running transition is \<open>[1, 13.86]\<close>, not the single target \<open>13.86\<close>.
\<close>

theorem double_q_targets_broadcast:
  "batch_values small_net small_net (99 / 100) [terminal_transition, running_transition] =
     Inr ([[3], [2]], [1, 0], [[1, 99 / 10], [1, 1386 / 100]], [6, 2])"
  by (simp add: batch_values_def stack_def terminal_transition_def running_transition_def
      double_q_targets_def small_net_def argmax_def expected_q_values_def current_q_values_def)

text \<open>
  With one transition in the batch the array is \<open>1 \<times> 1\<close> and holds the target of the
  claim; for a terminal transition with reward \<open>1\<close> it is \<open>1\<close>.
\<close>

lemma double_q_targets_single:
  "batch_values small_net small_net (99 / 100) [terminal_transition] = Inr ([[3]], [1], [[1]], [6])"
  by (simp add: batch_values_def stack_def terminal_transition_def
      double_q_targets_def small_net_def argmax_def expected_q_values_def current_q_values_def)

subsection \<open>The exploration rate\<close>

lemma fresh_agent_init:
  "DQNAgent_init DQNConfig_default (\<lambda>l r c. 0) (\<lambda>l r. 0) (\<lambda>net lr. 0) = Inr fresh_agent"
  by (simp add: DQNAgent_init_def DQNetwork_init_def DQNConfig_default_def fresh_agent_def zero_net_def)

lemma optimize_trace_guard:
  "int (length (buffer (memory a))) < batch_size (config a) \<Longrightarrow>
     optimize_trace opt_step uss a = replicate (Suc (length uss)) a"
  by (induction uss) (simp_all add: optimize_model_def)

text \<open>
  Claim C6 (the code departs from it). On the freshly constructed default agent, whose
  epsilon \<open>1\<close> is above \<open>epsilon_end = 0.01\<close>, \<^verbatim>\<open>optimize_model\<close> returns at its guard and
  epsilon is not decreased, neither by one call nor by a hundred.
\<close>

theorem epsilon_kept_at_guard:
  "epsilon_end (config fresh_agent) < epsilon fresh_agent \<and>
   optimize_model bump_step (\<lambda>k. 0) fresh_agent = (Inr 0, fresh_agent) \<and>
   epsilon (snd (optimize_model bump_step (\<lambda>k. 0) fresh_agent)) = epsilon fresh_agent \<and>
   epsilon (last (optimize_trace bump_step (replicate 100 (\<lambda>k. 0)) fresh_agent)) = epsilon fresh_agent"
proof -
  have g: "int (length (buffer (memory fresh_agent))) < batch_size (config fresh_agent)"
    by (simp add: fresh_agent_def PrioritizedReplayBuffer_init_def DQNConfig_default_def)
  have "epsilon_end (config fresh_agent) < epsilon fresh_agent"
    by (simp add: fresh_agent_def DQNConfig_default_def)
  moreover have "optimize_model bump_step (\<lambda>k. 0) fresh_agent = (Inr 0, fresh_agent)"
    using g by (simp add: optimize_model_def)
  moreover have "last (optimize_trace bump_step (replicate 100 (\<lambda>k. 0)) fresh_agent) = fresh_agent"
    unfolding optimize_trace_guard[OF g] by simp
  ultimately show ?thesis by simp
qed

subsection \<open>Loading a checkpoint\<close>

text \<open>
  The body of \<^verbatim>\<open>load_model\<close> in the first class statement assigns the parts in sequence and
  re-raises what it caught: on a stored dictionary with compatible policy parameters and no
  target parameters it raises the bare \<^verbatim>\<open>KeyError\<close> after the policy network has been
  overwritten.
\<close>

lemma load_model_body_partial:
  "load_model_body strict_load (\<lambda>cur s. (None, s)) [''model.pt'' \<mapsto> Pickled policy_only] ''model.pt''
       (small_agent 1 2 one_held) =
     (Some (KeyError ''target_net''),
      (small_agent 1 2 one_held)
        \<lparr>policy_net := [Linear [[1]] [0], ReLU, Linear [[1]] [0], ReLU, Linear [[1], [2]] [7, 7]]\<rparr>)"
  by (simp add: load_model_body_def load_target_net_def torch_load_def policy_only_def strict_load_def
      small_agent_def small_net_def)



subsection \<open>The tabular update\<close>

lemma length_discretize_state: "length (discretize_state ball paddle_y) = 5"
  by (simp add: discretize_state_def)

lemma np_getitem_too_many:
  "length (shape a) < length idx \<Longrightarrow> np_getitem a idx = Inl (IndexError ''too many indices for array'')"
  by (simp add: np_getitem_def np_index_def)

lemma update_too_many:
  assumes "length (shape (q_table a)) \<le> length old_state"
  shows "update a old_state act r new_state = Inl (IndexError ''too many indices for array'')"
  using assms by (simp add: update_def np_getitem_too_many)

text \<open>
  Claim C8 (the code departs from it). \<^verbatim>\<open>STATE_BINS\<close> has four entries, so the table has
  four state dimensions and the action dimension, while a discretized state has five
  components: with the action, \<^verbatim>\<open>update\<close> indexes the five-dimensional table with six indices.
  For every pair of discretized states, every action and every reward, \<^verbatim>\<open>update\<close> on the
  constructed agent raises \<^verbatim>\<open>IndexError\<close> and no entry of the table is replaced.
\<close>

theorem update_raises:
  "update (QAgent_init d) (discretize_state ball paddle_y) act r (discretize_state ball' paddle_y') =
     Inl (IndexError ''too many indices for array'')"
  by (rule update_too_many)
    (simp add: QAgent_init_def np_zeros_def STATE_BINS_def ACTIONS_def length_discretize_state)

text \<open>
  On a state with as many components as the table has state dimensions the same code is the
  tabular rule: from the zero table, \<open>Q[s, a]\<close> becomes \<open>0 + 0.1 * (1 + 0.95 * 0 - 0)\<close> and
  the other entries stay zero.
\<close>

lemma update_four_components:
  "update (QAgent_init d) [0, 0, 0, 1] 2 1 [0, 0, 0, 0] =
     Inr ((QAgent_init d)\<lparr>q_table :=
        \<lparr>shape = [12, 12, 6, 6, 3], data = [0, 0, 0, 0, 0, 1 / 10] @ replicate 15546 0\<rparr>\<rparr>)"
  by (simp add: update_def np_getitem_def np_setitem_def np_index_def np_max_def norm_index_def
      QAgent_init_def np_zeros_def STATE_BINS_def ACTIONS_def ALPHA_def GAMMA_def Let_def)

subsection \<open>The buffer states that the agent produces\<close>

lemma held_positive_init: "held_positive (PrioritizedReplayBuffer_init cap a)"
  by (simp add: held_positive_def PrioritizedReplayBuffer_init_def)

lemma Max_take_pos:
  assumes "0 < n" "n \<le> length ps" "\<forall>i < n. 0 < ps ! i"
  shows "(0::real) < Max (set (take n ps))"
proof -
  have "ps ! 0 \<in> set (take n ps)" using assms by (auto simp: in_set_conv_nth intro!: exI[of _ 0])
  moreover have "0 < ps ! 0" using assms by blast
  ultimately show ?thesis by (metis List.finite_set Max_ge less_le_trans)
qed

lemma push_result_held_positive:
  assumes "buffer_inv b" "held_positive b"
  shows "held_positive (push_result t b)"
proof -
  have new: "0 < (if buffer b = [] then 1 else Max (set (take (length (buffer b)) (priorities b))))"
    using assms Max_take_pos[of "length (buffer b)" "priorities b"]
    by (auto simp: buffer_inv_def held_positive_def)
  show ?thesis
  proof (cases "length (buffer b) < capacity b")
    case True
    then show ?thesis using assms new
      unfolding held_positive_def push_result_def buffer_inv_def
      by (auto simp: nth_list_update less_Suc_eq)
  next
    case False
    then show ?thesis using assms new
      unfolding held_positive_def push_result_def buffer_inv_def
      by (auto simp: nth_list_update)
  qed
qed

lemma update_priorities_inv:
  assumes "buffer_inv b" "held_positive b"
    and "\<forall>i \<in> set idx. 0 \<le> i \<and> i < int (length (buffer b))"
    and "\<forall>p \<in> set ps. \<forall>x. as_scalar p = Some x \<longrightarrow> 0 < x"
  shows "buffer_inv (snd (update_priorities idx ps b)) \<and>
         held_positive (snd (update_priorities idx ps b)) \<and>
         buffer (snd (update_priorities idx ps b)) = buffer b \<and>
         position (snd (update_priorities idx ps b)) = position b \<and>
         capacity (snd (update_priorities idx ps b)) = capacity b"
  using assms
proof (induction idx ps b rule: update_priorities.induct)
  case (1 i indices priority prios b)
  show ?case
  proof (cases "norm_index (length (priorities b)) i")
    case None
    then show ?thesis using 1 by simp
  next
    case (Some k)
    have k: "k = nat i" "k < length (buffer b)"
      using Some "1.prems"(3) by (auto simp: norm_index_def split: if_splits)
    show ?thesis
    proof (cases "as_scalar priority")
      case None
      then show ?thesis using Some 1 by simp
    next
      case (Some p)
      let ?b1 = "b\<lparr>priorities := (priorities b)[k := p]\<rparr>"
      have p: "0 < p" using Some "1.prems"(4) by auto
      have inv1: "buffer_inv ?b1" using "1.prems"(1) k p
        by (auto simp: buffer_inv_def nth_list_update split: if_splits)
      have kl: "k < length (priorities b)" using "1.prems"(1) k by (simp add: buffer_inv_def)
      have hp1: "held_positive ?b1" using "1.prems"(2) p kl
        by (auto simp: held_positive_def nth_list_update)
      have "buffer_inv (snd (update_priorities indices prios ?b1)) \<and>
            held_positive (snd (update_priorities indices prios ?b1)) \<and>
            buffer (snd (update_priorities indices prios ?b1)) = buffer ?b1 \<and>
            position (snd (update_priorities indices prios ?b1)) = position ?b1 \<and>
            capacity (snd (update_priorities indices prios ?b1)) = capacity ?b1"
        using "1.IH"[OF \<open>norm_index (length (priorities b)) i = Some k\<close> Some inv1 hp1] "1.prems"(3,4)
        by simp
      then show ?thesis using Some \<open>norm_index (length (priorities b)) i = Some k\<close> by simp
    qed
  qed
qed simp_all

lemma sample_indices:
  "sample b bsz beta us = Inr (batch, indices, weights) \<Longrightarrow> \<forall>i \<in> set indices. i < length (buffer b)"
  by (auto simp: sample_def Let_def split: if_splits sum.splits)

lemma as_scalar_row_pos:
  assumes "0 < eps" "as_scalar (Ar (map (\<lambda>x. Sc (x + eps)) row)) = Some y" "\<forall>x \<in> set row. 0 \<le> x"
  shows "0 < y"
proof (cases row)
  case Nil
  then show ?thesis using assms by simp
next
  case (Cons x xs)
  then show ?thesis using assms by (cases xs) auto
qed

lemma td_errors_nonneg: "row \<in> set (td_errors expected current) \<Longrightarrow> \<forall>x \<in> set row. 0 \<le> x"
  by (auto simp: td_errors_def)

lemma write_back_inv:
  assumes "buffer_inv b" "held_positive b" "0 < eps"
    and "\<forall>i \<in> set indices. i < length (buffer b)"
  shows "buffer_inv (snd (update_priorities (map int indices)
           (map (\<lambda>row. Ar (map (\<lambda>x. Sc (x + eps)) row)) (td_errors ex cu)) b)) \<and>
         held_positive (snd (update_priorities (map int indices)
           (map (\<lambda>row. Ar (map (\<lambda>x. Sc (x + eps)) row)) (td_errors ex cu)) b))"
proof -
  let ?ps = "map (\<lambda>row. Ar (map (\<lambda>x. Sc (x + eps)) row)) (td_errors ex cu)"
  have idx: "\<forall>i \<in> set (map int indices). 0 \<le> i \<and> i < int (length (buffer b))"
    using assms(4) by auto
  have ps: "\<forall>p \<in> set ?ps. \<forall>x. as_scalar p = Some x \<longrightarrow> 0 < x"
    using as_scalar_row_pos[OF assms(3)] td_errors_nonneg by fastforce
  show ?thesis using update_priorities_inv[OF assms(1,2) idx ps] by simp
qed

lemma optimize_model_memory_inv:
  assumes "buffer_inv (memory a)" "held_positive (memory a)" "0 < priority_epsilon (config a)"
  shows "buffer_inv (memory (snd (optimize_model opt_step us a))) \<and>
         held_positive (memory (snd (optimize_model opt_step us a))) \<and>
         buffer (memory (snd (optimize_model opt_step us a))) = buffer (memory a)"
  using assms by (simp add: optimize_model_unchanged)

lemma DQNAgent_init_memory:
  assumes "DQNAgent_init cfg w bs adam = Inr a" "0 < buffer_size cfg"
  shows "buffer_inv (memory a) \<and> held_positive (memory a) \<and> target_net a = policy_net a \<and>
         network_shape cfg (policy_net a) \<and> config a = cfg"
  using assms
  by (auto simp: DQNAgent_init_def buffer_inv_init held_positive_init DQNetwork_init_shape
      split: sum.splits if_splits)

end
